theory Spec2Isabelle
  imports Main "HOL-Library.Word"
begin

section \<open>Machine types\<close>

text \<open>
  \<open>size_t\<close> is the unsigned 64-bit integer of an LP64 platform and \<open>int\<close> the signed
  32-bit integer; arithmetic on both wraps around. A \<open>double\<close> is kept abstract as a
  type variable \<open>'d\<close> with a zero (the value \<open>0.0\<close> that \<open>std::vector::resize\<close> and the
  constructors write): no property below depends on floating-point arithmetic.
\<close>

type_synonym size_t = "64 word"
type_synonym cint = "32 word"

section \<open>Data.h: events, sequences and the data container\<close>

text \<open>
  \<open>struct Event\<close> and \<open>struct StringEvent\<close> differ only in the type of the feature key
  (\<open>size_t\<close> or \<open>std::string\<close>), which is the parameter \<open>'k\<close> here.
\<close>

record ('k, 'd) Event =
  label :: size_t
  fval :: 'd
  obs :: "('k \<times> 'd) list"

type_synonym ('k, 'd) Sequence = "('k, 'd) Event list"

text \<open>
  \<open>class TriSequence\<close> (\<open>'k = size_t\<close>) and \<open>class TriStringSequence\<close>
  (\<open>'k = std::string\<close>): the topic event always has integer feature ids.
\<close>

record ('k, 'd) TriSequence =
  topic :: "(size_t, 'd) Event"
  seq :: "('k, 'd) Sequence"

text \<open>\<open>std::vector::size()\<close> of a sequence, as a \<open>size_t\<close>.\<close>

definition Sequence_size :: "('k, 'd) Sequence \<Rightarrow> size_t" where
  "Sequence_size s = of_nat (length s)"

text \<open>\<open>size_t size() { return seq.size(); }\<close> of both triangular classes.\<close>

definition TriSequence_size :: "('k, 'd) TriSequence \<Rightarrow> size_t" where
  "TriSequence_size ts = Sequence_size (seq ts)"

text \<open>
  \<open>template <typename T> class Data : public std::vector<T>\<close> with the private member
  \<open>n_element\<close>. The inherited vector is the field \<open>elems\<close>.
\<close>

record 't Data =
  elems :: "'t list"
  n_element :: size_t

text \<open>
  \<open>Data\<close> declares no constructor and \<open>n_element\<close> has no initialiser. A default-initialised
  object (\<open>Data<Sequence> trainData;\<close>, or a \<open>Data\<close> member of a class whose constructor
  does not mention it) has an empty vector and an indeterminate \<open>n_element\<close>: the
  parameter \<open>junk\<close> is whatever the storage held.
\<close>

definition Data_default :: "size_t \<Rightarrow> 't Data" where
  "Data_default junk = \<lparr>elems = [], n_element = junk\<rparr>"

text \<open>
  \<open>void append(T element) { this->push_back(element); n_element += element.size(); }\<close>
  The element type's \<open>size()\<close> is the parameter \<open>sz\<close> (the template instantiation).
\<close>

definition append :: "('t \<Rightarrow> size_t) \<Rightarrow> 't Data \<Rightarrow> 't \<Rightarrow> 't Data" where
  "append sz d element =
     d\<lparr>elems := elems d @ [element], n_element := n_element d + sz element\<rparr>"

text \<open>The inherited \<open>std::vector::size()\<close>: the number of sequences.\<close>

definition Data_size :: "'t Data \<Rightarrow> nat" where
  "Data_size d = length (elems d)"

text \<open>\<open>size_t size_element() { return n_element; }\<close>\<close>

definition size_element :: "'t Data \<Rightarrow> size_t" where
  "size_element d = n_element d"

text \<open>Appending \<open>s1, ..., sn\<close> in order.\<close>

definition append_all :: "('t \<Rightarrow> size_t) \<Rightarrow> 't Data \<Rightarrow> 't list \<Rightarrow> 't Data" where
  "append_all sz d ss = foldl (append sz) d ss"

section \<open>LBFGS.h: the reverse-communication driver\<close>

text \<open>
  The private members of \<open>class LBFGS\<close>. The members \<open>iflag_\<close>, \<open>diag_\<close>, \<open>w_\<close> and
  \<open>mcsrch_\<close> are the fields \<open>iflag_m\<close>, \<open>diag_m\<close>, \<open>w_m\<close> and \<open>mcsrch_m\<close> (a field name
  cannot end in an underscore). \<open>mcsrch_\<close> is a pointer to the line-search object:
  \<open>None\<close> is the null pointer.
\<close>

record ('d, 'm) LBFGS =
  iflag_m :: cint
  iscn :: cint
  nfev :: cint
  iycn :: cint
  point :: cint
  npt :: cint
  iter :: cint
  info :: cint
  ispt :: cint
  isyt :: cint
  iypt :: cint
  maxfev :: cint
  stp :: 'd
  stp1 :: 'd
  diag_m :: "'d list"
  w_m :: "'d list"
  mcsrch_m :: "'m option"

text \<open>The constructor \<open>LBFGS()\<close>: every scalar zero, both vectors empty, no line search.\<close>

definition LBFGS_new :: "('d::zero, 'm) LBFGS" where
  "LBFGS_new =
     \<lparr>iflag_m = 0, iscn = 0, nfev = 0, iycn = 0, point = 0, npt = 0, iter = 0, info = 0,
      ispt = 0, isyt = 0, iypt = 0, maxfev = 0, stp = 0, stp1 = 0,
      diag_m = [], w_m = [], mcsrch_m = None\<rparr>"

text \<open>
  Modelled from the spec: \<open>LBFGS::clear()\<close> is declared in LBFGS.h and defined in
  LBFGS.cpp, which is not among the sources. Its documentation reads "Resets the
  optimizer to its initial state and frees all allocated memory".
\<close>

definition clear :: "('d::zero, 'm) LBFGS \<Rightarrow> ('d, 'm) LBFGS" where
  "clear st = LBFGS_new"

text \<open>\<open>std::vector<double>::resize(n)\<close>: truncate, or pad with \<open>0.0\<close>.\<close>

definition resize :: "nat \<Rightarrow> 'd::zero list \<Rightarrow> 'd list" where
  "resize n xs = take n xs @ replicate (n - length xs) 0"

text \<open>\<open>static const int msize = 100;\<close>\<close>

definition msize :: cint where
  "msize = 100"

text \<open>
  The first statement of \<open>optimize\<close> (lines 256 to 263): allocate on an empty \<open>w_\<close>,
  otherwise check the size. \<open>None\<close> is the early \<open>return -1\<close>. The \<open>int\<close> operands
  \<open>2 * msize + 1\<close> and \<open>2 * msize\<close> are converted to \<open>size_t\<close> and the arithmetic is
  that of \<open>size_t\<close>.
\<close>

definition optimize_alloc :: "('d::zero, 'm) LBFGS \<Rightarrow> size_t \<Rightarrow> ('d, 'm) LBFGS option" where
  "optimize_alloc st sz =
     (if w_m st = [] then
        Some (st\<lparr>iflag_m := 0,
                 w_m := resize (unat (sz * scast (2 * msize + 1) + scast (2 * msize))) (w_m st),
                 diag_m := resize (unat sz) (diag_m st)\<rparr>)
      else if length (diag_m st) \<noteq> unat sz then None
      else Some st)"

text \<open>
  \<open>lbfgs_optimize\<close> is defined in LBFGS.cpp, which is not among the sources: it is the
  parameter \<open>lbfgs_optimize\<close>, any function of its arguments (\<open>size\<close>, \<open>msize\<close>, \<open>x\<close>,
  \<open>f\<close>, \<open>g\<close>, \<open>orthant\<close>, \<open>C\<close>) and of the object, returning the object (with \<open>diag_\<close>,
  \<open>w_\<close> and \<open>iflag_\<close>, which it receives by pointer) and the parameter vector \<open>x\<close> as it
  leaves them.
\<close>

type_synonym ('d, 'm) lbfgs_routine =
  "cint \<Rightarrow> cint \<Rightarrow> 'd list \<Rightarrow> 'd \<Rightarrow> 'd list \<Rightarrow> bool \<Rightarrow> 'd \<Rightarrow> ('d, 'm) LBFGS
     \<Rightarrow> ('d, 'm) LBFGS \<times> 'd list"

text \<open>
  The last two statements of \<open>optimize\<close> (lines 268 to 278), on the object and the
  vector \<open>x\<close> that \<open>lbfgs_optimize\<close> left.
\<close>

definition optimize_finish ::
  "('d::zero, 'm) LBFGS \<times> 'd list \<Rightarrow> cint \<times> ('d, 'm) LBFGS \<times> 'd list" where
  "optimize_finish r =
     (case r of
        (st2, x2) \<Rightarrow>
          if iflag_m st2 <s 0 then (- 1, st2, x2)
          else if iflag_m st2 = 0 then (0, clear st2, x2)
          else (1, st2, x2))"

text \<open>
  \<open>int optimize(size_t size, double *x, double f, double *g, bool orthant, double C)\<close>.
  The result is the returned status, the object and \<open>x\<close> after the call.
  \<open>static_cast<int>(size)\<close> keeps the low 32 bits.
\<close>

definition optimize ::
  "('d::zero, 'm) lbfgs_routine \<Rightarrow> ('d, 'm) LBFGS \<Rightarrow> size_t \<Rightarrow> 'd list \<Rightarrow> 'd \<Rightarrow> 'd list
     \<Rightarrow> bool \<Rightarrow> 'd \<Rightarrow> cint \<times> ('d, 'm) LBFGS \<times> 'd list" where
  "optimize lbfgs_optimize st sz x f g orthant C =
     (case optimize_alloc st sz of
        None \<Rightarrow> (- 1, st, x)
      | Some st1 \<Rightarrow> optimize_finish (lbfgs_optimize (ucast sz) msize x f g orthant C st1))"

text \<open>The size check of \<open>optimize\<close> fails: \<open>w_\<close> is allocated and \<open>diag_.size() != size\<close>.\<close>

definition size_check_fails :: "('d, 'm) LBFGS \<Rightarrow> size_t \<Rightarrow> bool" where
  "size_check_fails st sz \<longleftrightarrow> w_m st \<noteq> [] \<and> length (diag_m st) \<noteq> unat sz"

text \<open>
  The value of \<open>iflag_\<close> when \<open>lbfgs_optimize\<close> returns; \<open>None\<close> when the size check
  fails and \<open>lbfgs_optimize\<close> is not called.
\<close>

definition iflag_after ::
  "('d::zero, 'm) lbfgs_routine \<Rightarrow> ('d, 'm) LBFGS \<Rightarrow> size_t \<Rightarrow> 'd list \<Rightarrow> 'd \<Rightarrow> 'd list
     \<Rightarrow> bool \<Rightarrow> 'd \<Rightarrow> cint option" where
  "iflag_after lbfgs_optimize st sz x f g orthant C =
     map_option (\<lambda>st1. iflag_m (fst (lbfgs_optimize (ucast sz) msize x f g orthant C st1)))
       (optimize_alloc st sz)"

section \<open>Param.h: the parameter store\<close>

text \<open>
  Param.h declares \<open>class Parameter\<close>: its data members and the signatures of its member
  functions. The function bodies are in Param.cpp, which is not among the sources, so
  each body below is modelled from the specification (section 4.A, "Parameter Store",
  and the invariants of section 3). Identifiers are vector positions and are natural
  numbers; \<open>std::map<std::string, size_t>\<close> is a map \<open>string \<rightharpoonup> nat\<close>.
\<close>

text \<open>
  Modelled from the spec: the lifecycle state of the store, which Param.h does not
  declare as a member. The store "becomes read-only in structure" at \<open>finalize()\<close>; the
  field \<open>finalized\<close> records that. The other fields are the data members of
  \<open>class Parameter\<close>, as Param.h declares them, that the dictionary and weight operations
  use.
\<close>

record 'd Parameter =
  n_weight :: nat
  m_Weight :: "'d list"
  m_Gradient :: "'d list"
  m_Count :: "'d list"
  m_FeatureMap :: "string \<rightharpoonup> nat"
  m_FeatureVec :: "string list"
  m_StateMap :: "string \<rightharpoonup> nat"
  m_StateVec :: "string list"
  mEDGE :: string
  m_default_oid :: nat
  m_ParamIndex :: "(nat \<times> nat) list list"
  finalized :: bool

text \<open>Errors travel as result values (section 7 of the specification).\<close>

datatype error = StructureFrozen | ZeroLengthSequence

text \<open>
  Modelled from the spec: the constructor \<open>Parameter::Parameter()\<close> (Param.cpp). "The
  dictionary always contains a reserved default state": the constructor interns it.
  The name of the wildcard edge feature and the name of the default state are constants
  of Param.cpp and are the parameters \<open>edge\<close> and \<open>dflt\<close>.
\<close>

definition Parameter_new :: "string \<Rightarrow> string \<Rightarrow> 'd Parameter" where
  "Parameter_new edge dflt =
     \<lparr>n_weight = 0, m_Weight = [], m_Gradient = [], m_Count = [],
      m_FeatureMap = Map.empty, m_FeatureVec = [],
      m_StateMap = [dflt \<mapsto> 0], m_StateVec = [dflt],
      mEDGE = edge, m_default_oid = 0, m_ParamIndex = [], finalized = False\<rparr>"

text \<open>
  Modelled from the spec: \<open>Parameter::sizeStateVec\<close> (Param.cpp), the number \<open>S\<close> of
  states.
\<close>

definition sizeStateVec :: "'d Parameter \<Rightarrow> nat" where
  "sizeStateVec p = length (m_StateVec p)"

text \<open>
  Modelled from the spec: \<open>Parameter::sizeFeatureVec\<close> (Param.cpp), the number \<open>F\<close> of
  features.
\<close>

definition sizeFeatureVec :: "'d Parameter \<Rightarrow> nat" where
  "sizeFeatureVec p = length (m_FeatureVec p)"

text \<open>
  Modelled from the spec: \<open>Parameter::size\<close> (Param.cpp), the number \<open>W\<close> of weight slots.
\<close>

definition Parameter_size :: "'d Parameter \<Rightarrow> nat" where
  "Parameter_size p = n_weight p"

text \<open>
  Modelled from the spec: \<open>Parameter::addNewState\<close> (Param.cpp), the operation
  \<open>intern_state(name) -> yid\<close>: "idempotent; assign the next id on first call". The
  result is the id and the store.
\<close>

definition addNewState :: "'d Parameter \<Rightarrow> string \<Rightarrow> nat \<times> 'd Parameter" where
  "addNewState p key =
     (case m_StateMap p key of
        Some yid \<Rightarrow> (yid, p)
      | None \<Rightarrow>
          (length (m_StateVec p),
           p\<lparr>m_StateMap := (m_StateMap p)(key \<mapsto> length (m_StateVec p)),
             m_StateVec := m_StateVec p @ [key]\<rparr>))"

text \<open>
  Modelled from the spec: \<open>Parameter::addNewObs\<close> (Param.cpp), the operation
  \<open>intern_feature(name) -> fid\<close>: "idempotent; assign the next id on first call".
\<close>

definition addNewObs :: "'d Parameter \<Rightarrow> string \<Rightarrow> nat \<times> 'd Parameter" where
  "addNewObs p key =
     (case m_FeatureMap p key of
        Some fid \<Rightarrow> (fid, p)
      | None \<Rightarrow>
          (length (m_FeatureVec p),
           p\<lparr>m_FeatureMap := (m_FeatureMap p)(key \<mapsto> length (m_FeatureVec p)),
             m_FeatureVec := m_FeatureVec p @ [key]\<rparr>))"

text \<open>
  Modelled from the spec: \<open>Parameter::findState\<close> (Param.cpp): "\<open>find_state(name)\<close>,
  \<open>find_feature(name)\<close> -> id or "not found"". \<open>None\<close> is "not found".
\<close>

definition findState :: "'d Parameter \<Rightarrow> string \<Rightarrow> nat option" where
  "findState p key = m_StateMap p key"

text \<open>
  Modelled from the spec: \<open>Parameter::findObs\<close> (Param.cpp), the operation
  \<open>find_feature(name)\<close>.
\<close>

definition findObs :: "'d Parameter \<Rightarrow> string \<Rightarrow> nat option" where
  "findObs p key = m_FeatureMap p key"

text \<open>
  Modelled from the spec: \<open>Parameter::getDefaultState\<close> (Param.cpp), the id of the
  reserved default state, kept in the member \<open>m_default_oid\<close>.
\<close>

definition getDefaultState :: "'d Parameter \<Rightarrow> nat" where
  "getDefaultState p = m_default_oid p"

text \<open>
  Modelled from the spec: the label of a test-time event, which the caller of
  \<open>findState\<close> computes (\<open>MaxEnt::packEvent\<close> with \<open>test = true\<close> is declared in MaxEnt.h;
  MaxEnt.cpp is not among the sources): "callers substitute the default state when a
  test-time label is missing", and the miss is "silently substituted ...; not counted as
  an error". The result is a label (\<open>Inr\<close>) or an error (\<open>Inl\<close>); the store is only read.
\<close>

definition test_label :: "'d Parameter \<Rightarrow> string \<Rightarrow> error + nat" where
  "test_label p name =
     (case findState p name of
        Some yid \<Rightarrow> Inr yid
      | None \<Rightarrow> Inr (getDefaultState p))"

text \<open>
  Modelled from the spec: the operation \<open>obs_index_of(y)\<close>, a read of the public member
  \<open>m_ParamIndex\<close>: the row for state \<open>y\<close>, a list of \<open>(fid, weight index)\<close> pairs; empty
  for a state without a row.
\<close>

definition obs_index_of :: "'d Parameter \<Rightarrow> nat \<Rightarrow> (nat \<times> nat) list" where
  "obs_index_of p y = (if y < length (m_ParamIndex p) then m_ParamIndex p ! y else [])"

text \<open>
  Modelled from the spec: \<open>Parameter::updateParam(oid, pid, fval)\<close> (Param.cpp), the
  operation \<open>record(y, fid)\<close>: "allocates an observation-weight slot on first sighting
  and returns its weight index. Duplicate calls return the existing index", and after
  \<open>finalize()\<close> "subsequent \<open>record\<close> calls are errors". The specification gives the value
  argument (\<open>fval\<close> in Param.h, \<open>val\<close> here) no role.
\<close>

definition updateParam ::
  "'d Parameter \<Rightarrow> nat \<Rightarrow> nat \<Rightarrow> 'd \<Rightarrow> error + (nat \<times> 'd Parameter)" where
  "updateParam p oid pid val =
     (if finalized p then Inl StructureFrozen
      else
        (case map_of (obs_index_of p oid) pid of
           Some widx \<Rightarrow> Inr (widx, p)
         | None \<Rightarrow>
             (let rows = m_ParamIndex p @ replicate (Suc oid - length (m_ParamIndex p)) []
              in Inr (n_weight p,
                      p\<lparr>m_ParamIndex := rows[oid := rows ! oid @ [(pid, n_weight p)]],
                        n_weight := Suc (n_weight p)\<rparr>))))"

text \<open>
  Modelled from the spec: \<open>Parameter::initialize\<close> (Param.cpp), the part of
  \<open>finalize()\<close> that "allocates \<theta>, g, c as zero-vectors of length W".
\<close>

definition initialize :: "'d::zero Parameter \<Rightarrow> 'd Parameter" where
  "initialize p =
     p\<lparr>m_Weight := replicate (n_weight p) 0,
       m_Gradient := replicate (n_weight p) 0,
       m_Count := replicate (n_weight p) 0\<rparr>"

text \<open>
  Modelled from the spec: \<open>Parameter::endUpdate\<close> (Param.cpp), the operation \<open>finalize()\<close>:
  "builds \<open>ParamIndex\<close>, allocates \<theta>, g, c as zero-vectors of length W, and becomes
  read-only in structure"; the rows of the index are "guaranteed sorted by \<open>fid\<close>".
\<close>

definition endUpdate :: "'d::zero Parameter \<Rightarrow> 'd Parameter" where
  "endUpdate p =
     initialize (p\<lparr>m_ParamIndex := map (sort_key fst) (m_ParamIndex p), finalized := True\<rparr>)"

text \<open>
  Modelled from the spec: \<open>Parameter::setWeight(double* theta)\<close> (Param.cpp), the
  optimizer's write of a new weight vector: it copies one value per weight slot.
\<close>

definition setWeight :: "'d Parameter \<Rightarrow> 'd list \<Rightarrow> 'd Parameter" where
  "setWeight p theta = p\<lparr>m_Weight := take (n_weight p) theta\<rparr>"

text \<open>
  The histories of a store: the operations that change it, applied in order to the
  constructed store. A \<open>record\<close> call that is an error leaves the store as it was.
\<close>

datatype 'd param_op =
    AddNewState string
  | AddNewObs string
  | UpdateParam nat nat 'd
  | EndUpdate
  | SetWeight "'d list"

text \<open>One operation applied to a store.\<close>

fun apply_op :: "'d::zero Parameter \<Rightarrow> 'd param_op \<Rightarrow> 'd Parameter" where
  "apply_op p (AddNewState key) = snd (addNewState p key)"
| "apply_op p (AddNewObs key) = snd (addNewObs p key)"
| "apply_op p (UpdateParam oid pid val) =
     (case updateParam p oid pid val of Inl e \<Rightarrow> p | Inr (widx, p') \<Rightarrow> p')"
| "apply_op p EndUpdate = endUpdate p"
| "apply_op p (SetWeight theta) = setWeight p theta"

text \<open>A list of operations applied in order.\<close>

definition run_ops :: "'d::zero Parameter \<Rightarrow> 'd param_op list \<Rightarrow> 'd Parameter" where
  "run_ops p ops = foldl apply_op p ops"

text \<open>
  A dictionary is well formed when the map and the vector are inverse to each other:
  the names are in bijection with the ids below the size of the vector.
\<close>

definition dict_wf :: "(string \<rightharpoonup> nat) \<Rightarrow> string list \<Rightarrow> bool" where
  "dict_wf m v \<longleftrightarrow> (\<forall>key i. m key = Some i \<longleftrightarrow> i < length v \<and> v ! i = key)"


section \<open>TriCRF1.h, TriCRF2.h: Viterbi decoding of a triangular model\<close>

text \<open>
  The headers declare \<open>viterbiSearch(size_t& max_z, long double& prob)\<close> and the members
  \<open>m_R\<close>, \<open>m_M\<close> and \<open>m_Gamma\<close>; the body is in TriCRF1.cpp and TriCRF2.cpp, which are not
  among the sources. The decoder below is modelled from the specification (section 4.C).
  A potential is a value of an ordered semiring \<open>'v\<close>: the claims about the decoder are
  about order and products, not about the rounding of \<open>long double\<close>.
\<close>

text \<open>
  Modelled from the spec: the state of the inference engine for one topic and the
  current example (section 4.C): the number of states \<open>S\<close>, the node potentials
  \<open>R[t][y]\<close> and the edge potentials \<open>M[t][y_prev * S + y_cur]\<close>, where \<open>M[0]\<close> encodes
  "start -> y".
\<close>

record 'v lattice =
  n_state :: nat
  R_node :: "'v list list"
  M_edge :: "'v list list"

text \<open>
  Modelled from the spec: "argmax ... Ties are broken by lower ... id". The index of
  the maximum of a vector, found by the scan that replaces the best index only on a
  strictly larger value; 0 on an empty vector.
\<close>

definition argmax :: "'v::linorder list \<Rightarrow> nat" where
  "argmax xs = fold (\<lambda>i best. if xs ! best < xs ! i then i else best) [1..<length xs] 0"

text \<open>
  Modelled from the spec: "Standard max-product linear-chain Viterbi with
  back-pointers", on the recurrences of section 4.C with the sum replaced by the
  maximum: \<open>\<delta>[0][y] = R[0][y] * M[0][y]\<close>,
  \<open>\<delta>[t][y] = R[t][y] * max_y' \<delta>[t-1][y'] * M[t][y' * S + y]\<close>, and the back-pointer
  \<open>\<psi>[t][y]\<close> is the maximising \<open>y'\<close>.
\<close>

definition viterbi_cand :: "'v::linordered_semiring lattice \<Rightarrow> nat \<Rightarrow> 'v list \<Rightarrow> nat \<Rightarrow> 'v list" where
  "viterbi_cand L t delta y =
     map (\<lambda>y'. delta ! y' * M_edge L ! t ! (y' * n_state L + y)) [0..<n_state L]"

text \<open>
  Modelled from the spec: the max-product values \<open>\<delta>[t]\<close> of the recurrence above.
\<close>

fun viterbi_delta :: "'v::linordered_semiring lattice \<Rightarrow> nat \<Rightarrow> 'v list" where
  "viterbi_delta L 0 = map (\<lambda>y. R_node L ! 0 ! y * M_edge L ! 0 ! y) [0..<n_state L]"
| "viterbi_delta L (Suc t) =
     map (\<lambda>y. R_node L ! Suc t ! y
               * (viterbi_cand L (Suc t) (viterbi_delta L t) y
                    ! argmax (viterbi_cand L (Suc t) (viterbi_delta L t) y)))
       [0..<n_state L]"

text \<open>
  Modelled from the spec: the back-pointers \<open>\<psi>[t]\<close> of position \<open>t > 0\<close>.
\<close>

definition viterbi_psi :: "'v::linordered_semiring lattice \<Rightarrow> nat \<Rightarrow> nat list" where
  "viterbi_psi L t =
     map (\<lambda>y. argmax (viterbi_cand L t (viterbi_delta L (t - 1)) y)) [0..<n_state L]"

text \<open>
  Modelled from the spec: following the back-pointers from state \<open>y\<close> at position \<open>t\<close>
  to position 0.
\<close>

fun viterbi_path :: "'v::linordered_semiring lattice \<Rightarrow> nat \<Rightarrow> nat \<Rightarrow> nat list" where
  "viterbi_path L 0 y = [y]"
| "viterbi_path L (Suc t) y = viterbi_path L t (viterbi_psi L (Suc t) ! y) @ [y]"

text \<open>
  Modelled from the spec: the decoder of one topic, returning the path and its score.
  "Zero-length sequences are rejected." The sequence length is the number of rows of
  \<open>R\<close>.
\<close>

definition viterbi :: "'v::linordered_semiring lattice \<Rightarrow> error + (nat list \<times> 'v)" where
  "viterbi L =
     (if R_node L = [] then Inl ZeroLengthSequence
      else
        (let delta = viterbi_delta L (length (R_node L) - 1);
             y = argmax delta
         in Inr (viterbi_path L (length (R_node L) - 1) y, delta ! y)))"

text \<open>
  Modelled from the spec: "For triangular models, Viterbi is run independently for each
  topic z producing (y_z, score_z); the chosen topic is argmax_z \<gamma>[z] * score_z(y_z).
  Ties are broken by lower topic id." \<open>viterbi_all\<close> runs the decoder on the lattice of
  every topic in turn; \<open>viterbiSearch\<close> returns the chosen topic (\<open>max_z\<close>) and its path.
\<close>

fun viterbi_all :: "'v::linordered_semiring lattice list \<Rightarrow> error + (nat list \<times> 'v) list" where
  "viterbi_all [] = Inr []"
| "viterbi_all (L # Ls) =
     (case viterbi L of
        Inl e \<Rightarrow> Inl e
      | Inr r \<Rightarrow> (case viterbi_all Ls of Inl e \<Rightarrow> Inl e | Inr rs \<Rightarrow> Inr (r # rs)))"

text \<open>
  Modelled from the spec: the values \<open>\<gamma>[z] * score_z\<close> over which the topic is chosen.
\<close>

definition topic_values :: "'v::linordered_semiring list \<Rightarrow> (nat list \<times> 'v) list \<Rightarrow> 'v list" where
  "topic_values gamma rs = map (\<lambda>z. gamma ! z * snd (rs ! z)) [0..<length rs]"

text \<open>
  Modelled from the spec: \<open>viterbiSearch\<close> of TriCRF1.cpp and TriCRF2.cpp. The output
  parameter \<open>prob\<close> of the declaration has no counterpart in the specification and is
  left out.
\<close>

definition viterbiSearch ::
  "'v::linordered_semiring list \<Rightarrow> 'v lattice list \<Rightarrow> error + (nat \<times> nat list)" where
  "viterbiSearch gamma Ls =
     (case viterbi_all Ls of
        Inl e \<Rightarrow> Inl e
      | Inr rs \<Rightarrow> (let max_z = argmax (topic_values gamma rs) in Inr (max_z, fst (rs ! max_z))))"

text \<open>
  The unnormalised score of a label path \<open>ys\<close> up to position \<open>t\<close>: the product of the
  node and edge potentials along it, multiplied in the order of the recurrence.
\<close>

fun path_score_upto :: "'v::linordered_semiring lattice \<Rightarrow> nat list \<Rightarrow> nat \<Rightarrow> 'v" where
  "path_score_upto L ys 0 = R_node L ! 0 ! (ys ! 0) * M_edge L ! 0 ! (ys ! 0)"
| "path_score_upto L ys (Suc t) =
     R_node L ! Suc t ! (ys ! Suc t)
       * (path_score_upto L ys t * M_edge L ! Suc t ! (ys ! t * n_state L + ys ! Suc t))"

text \<open>The unnormalised score of a whole label path.\<close>

definition path_score :: "'v::linordered_semiring lattice \<Rightarrow> nat list \<Rightarrow> 'v" where
  "path_score L ys = path_score_upto L ys (length ys - 1)"

text \<open>A label path of the lattice: one state below \<open>S\<close> for each position.\<close>

definition is_path :: "'v lattice \<Rightarrow> nat list \<Rightarrow> bool" where
  "is_path L ys \<longleftrightarrow> length ys = length (R_node L) \<and> list_all (\<lambda>y. y < n_state L) ys"

text \<open>
  A lattice as the inference engine builds it: at least one state and one position, a
  row of \<open>S\<close> node potentials and of \<open>S * S\<close> edge potentials for every position, and no
  negative potential (a potential is an exponential).
\<close>

definition lattice_ok :: "'v::linordered_semiring lattice \<Rightarrow> bool" where
  "lattice_ok L \<longleftrightarrow>
     0 < n_state L \<and> R_node L \<noteq> [] \<and> length (M_edge L) = length (R_node L)
     \<and> list_all (\<lambda>row. length row = n_state L \<and> list_all (\<lambda>v. 0 \<le> v) row) (R_node L)
     \<and> list_all (\<lambda>row. length row = n_state L * n_state L \<and> list_all (\<lambda>v. 0 \<le> v) row)
         (M_edge L)"


section \<open>Properties of the data container\<close>

lemma Data_size_append: "Data_size (append sz d e) = Suc (Data_size d)"
  by (simp add: Data_size_def append_def)

lemma size_element_append: "size_element (append sz d e) = size_element d + sz e"
  by (simp add: size_element_def append_def)

lemma Data_size_append_all: "Data_size (append_all sz d ss) = Data_size d + length ss"
  unfolding append_all_def
  by (induction ss arbitrary: d) (simp_all add: Data_size_append)

lemma size_element_append_all:
  "size_element (append_all sz d ss) = size_element d + sum_list (map sz ss)"
  unfolding append_all_def
  by (induction ss arbitrary: d) (simp_all add: size_element_append add.assoc)

lemma sum_list_Sequence_size:
  "sum_list (map Sequence_size ss) = (of_nat (sum_list (map length ss)) :: size_t)"
  by (induction ss) (simp_all add: Sequence_size_def)

lemma sum_list_TriSequence_size:
  "sum_list (map TriSequence_size ts) = (of_nat (sum_list (map (\<lambda>t. length (seq t)) ts)) :: size_t)"
  by (induction ts) (simp_all add: TriSequence_size_def Sequence_size_def)

text \<open>
  The count of sequences is right from any start, and the event count is the start
  value plus the sizes appended: it is the sum of the sizes exactly when the object
  started with \<open>n_element = 0\<close>.
\<close>

lemma append_all_from_default:
  "Data_size (append_all Sequence_size (Data_default junk) ss) = length ss
   \<and> size_element (append_all Sequence_size (Data_default junk) ss)
       = junk + of_nat (sum_list (map length ss))"
  by (simp add: Data_size_append_all size_element_append_all sum_list_Sequence_size)
     (simp add: Data_size_def size_element_def Data_default_def)

text \<open>
  C2. After appending \<open>s1, ..., sn\<close> to a freshly constructed \<open>Data\<close>, \<open>size()\<close> is \<open>n\<close> and
  \<open>size_element()\<close> is the total event count. The code never initialises \<open>n_element\<close>:
  on a default-initialised object that happened to hold 7, appending one sequence of
  two events and one of one event gives \<open>size() = 2\<close> but \<open>size_element() = 10\<close>, not 3.
\<close>

theorem size_element_uninitialised:
  "Data_size (append_all Sequence_size (Data_default 7)
       [[\<lparr>label = 0, fval = 1::int, obs = [(0::size_t, 1)]\<rparr>, \<lparr>label = 1, fval = 1, obs = []\<rparr>],
        [\<lparr>label = 0, fval = 1, obs = []\<rparr>]]) = 2
   \<and> size_element (append_all Sequence_size (Data_default 7)
       [[\<lparr>label = 0, fval = 1::int, obs = [(0::size_t, 1)]\<rparr>, \<lparr>label = 1, fval = 1, obs = []\<rparr>],
        [\<lparr>label = 0, fval = 1, obs = []\<rparr>]]) = 10
   \<and> size_element (append_all Sequence_size (Data_default 7)
       [[\<lparr>label = 0, fval = 1::int, obs = [(0::size_t, 1)]\<rparr>, \<lparr>label = 1, fval = 1, obs = []\<rparr>],
        [\<lparr>label = 0, fval = 1, obs = []\<rparr>]]) \<noteq> 3"
  by (simp add: append_all_def append_def Data_default_def Data_size_def size_element_def
      Sequence_size_def)

text \<open>
  C10. \<open>size()\<close> of a \<open>TriSequence\<close> or \<open>TriStringSequence\<close> is the length of \<open>seq\<close>
  whatever the topic event is, so \<open>append\<close> adds exactly the per-token events of the
  example to \<open>n_element\<close>, and a run of appends adds the total of the per-token
  lengths: the topic event of an example is never counted.
\<close>

theorem TriSequence_size_excludes_topic:
  "TriSequence_size ts = of_nat (length (seq ts))
   \<and> TriSequence_size (ts\<lparr>topic := t\<rparr>) = TriSequence_size ts
   \<and> size_element (append TriSequence_size d ts) = size_element d + of_nat (length (seq ts))
   \<and> size_element (append_all TriSequence_size d tss)
       = size_element d + of_nat (sum_list (map (\<lambda>ts. length (seq ts)) tss))"
  by (simp add: size_element_append size_element_append_all sum_list_TriSequence_size)
     (simp add: TriSequence_size_def Sequence_size_def)

section \<open>Properties of the optimizer driver\<close>

lemma length_resize: "length (resize n xs) = n"
  by (simp add: resize_def)

lemma msize_size_t: "(scast (2 * msize + 1) :: size_t) = 201" "(scast (2 * msize) :: size_t) = 200"
  by (simp_all add: msize_def)

lemma optimize_finish_status:
  "fst (optimize_finish (st2, x2)) =
     (if iflag_m st2 <s 0 then - 1 else if iflag_m st2 = 0 then 0 else 1)"
  by (simp add: optimize_finish_def)

lemma iflag_after_None: "iflag_after lb st sz x f g orthant C = None \<longleftrightarrow> size_check_fails st sz"
  by (simp add: iflag_after_def size_check_fails_def optimize_alloc_def)

lemma optimize_fails: "size_check_fails st sz \<Longrightarrow> optimize lb st sz x f g orthant C = (- 1, st, x)"
  by (simp add: optimize_def size_check_fails_def optimize_alloc_def)

lemma optimize_passes:
  "iflag_after lb st sz x f g orthant C = Some i \<Longrightarrow>
   fst (optimize lb st sz x f g orthant C) = (if i <s 0 then - 1 else if i = 0 then 0 else 1)"
  by (cases "optimize_alloc st sz")
     (auto simp: iflag_after_def optimize_def optimize_finish_def split: prod.splits)

lemma optimize_continue_result:
  assumes "fst (optimize lb st sz x f g orthant C) = 1"
  shows "\<exists>st1. optimize_alloc st sz = Some st1
           \<and> snd (optimize lb st sz x f g orthant C) = lb (ucast sz) msize x f g orthant C st1"
proof (cases "optimize_alloc st sz")
  case None
  with assms show ?thesis by (simp add: optimize_def)
next
  case (Some st1)
  with assms show ?thesis
    by (auto simp: optimize_def optimize_finish_def split: prod.splits if_splits)
qed

text \<open>
  While the arrays are allocated the flag is not 0: the constructor leaves \<open>w_\<close> empty,
  and a call that ends with \<open>iflag_ = 0\<close> clears the object. So at a failed size check
  the flag left by the previous call is not 0 either.
\<close>

lemma optimize_flag_invariant:
  assumes "w_m st \<noteq> [] \<longrightarrow> iflag_m st \<noteq> 0"
  shows "w_m (fst (snd (optimize lb st sz x f g orthant C))) \<noteq> []
           \<longrightarrow> iflag_m (fst (snd (optimize lb st sz x f g orthant C))) \<noteq> 0"
proof (cases "optimize_alloc st sz")
  case None
  with assms show ?thesis by (simp add: optimize_def)
next
  case (Some st1)
  then show ?thesis
    by (auto simp: optimize_def optimize_finish_def clear_def LBFGS_new_def split: prod.splits)
qed

text \<open>
  C1. \<open>optimize\<close> returns 1, 0 or -1. It returns 0 exactly when \<open>lbfgs_optimize\<close> ran
  and left \<open>iflag_ = 0\<close>; it returns -1 exactly when the size check failed or
  \<open>lbfgs_optimize\<close> left \<open>iflag_ < 0\<close>; it returns 1 in the remaining case, and then the
  parameter vector and the object are the ones \<open>lbfgs_optimize\<close> left, at which the
  caller evaluates the objective and the gradient for the next call.
\<close>

theorem optimize_status:
  "fst (optimize lb st sz x f g orthant C) \<in> {1, 0, - 1}
   \<and> (fst (optimize lb st sz x f g orthant C) = 0
        \<longleftrightarrow> iflag_after lb st sz x f g orthant C = Some 0)
   \<and> (fst (optimize lb st sz x f g orthant C) = - 1
        \<longleftrightarrow> size_check_fails st sz
            \<or> (\<exists>i. iflag_after lb st sz x f g orthant C = Some i \<and> i <s 0))
   \<and> (fst (optimize lb st sz x f g orthant C) = 1
        \<longleftrightarrow> (\<exists>i. iflag_after lb st sz x f g orthant C = Some i \<and> \<not> i <s 0 \<and> i \<noteq> 0))
   \<and> (fst (optimize lb st sz x f g orthant C) = 1
        \<longrightarrow> (\<exists>st1. optimize_alloc st sz = Some st1
              \<and> snd (optimize lb st sz x f g orthant C)
                  = lb (ucast sz) msize x f g orthant C st1))"
proof (cases "iflag_after lb st sz x f g orthant C")
  case None
  then have "size_check_fails st sz" by (simp add: iflag_after_None)
  with None show ?thesis by (simp add: optimize_fails)
next
  case (Some i)
  then have "\<not> size_check_fails st sz"
    using iflag_after_None [of lb st sz x f g orthant C] by simp
  with Some optimize_passes [OF Some] optimize_continue_result [of lb st sz x f g orthant C]
  show ?thesis by (auto simp: word_sless_alt)
qed

theorem optimize_status_witness:
  "iflag_after (\<lambda>n m x f g orthant C st. (st\<lparr>iflag_m := 1\<rparr>, map (\<lambda>v. v + 1) x))
          (LBFGS_new :: (int, unit) LBFGS) 3 [0, 0, 0] 5 [1, 1, 1] False 0 = Some 1
   \<and> fst (optimize (\<lambda>n m x f g orthant C st. (st\<lparr>iflag_m := 1\<rparr>, map (\<lambda>v. v + 1) x))
          (LBFGS_new :: (int, unit) LBFGS) 3 [0, 0, 0] 5 [1, 1, 1] False 0) = 1
   \<and> snd (snd (optimize (\<lambda>n m x f g orthant C st. (st\<lparr>iflag_m := 1\<rparr>, map (\<lambda>v. v + 1) x))
          (LBFGS_new :: (int, unit) LBFGS) 3 [0, 0, 0] 5 [1, 1, 1] False 0)) = [1, 1, 1]
   \<and> iflag_after (\<lambda>n m x f g orthant C st. (st\<lparr>iflag_m := 0\<rparr>, x))
          (LBFGS_new :: (int, unit) LBFGS) 3 [0, 0, 0] 5 [1, 1, 1] False 0 = Some 0
   \<and> fst (optimize (\<lambda>n m x f g orthant C st. (st\<lparr>iflag_m := 0\<rparr>, x))
          (LBFGS_new :: (int, unit) LBFGS) 3 [0, 0, 0] 5 [1, 1, 1] False 0) = 0
   \<and> iflag_after (\<lambda>n m x f g orthant C st. (st\<lparr>iflag_m := - 2\<rparr>, x))
          (LBFGS_new :: (int, unit) LBFGS) 3 [0, 0, 0] 5 [1, 1, 1] False 0 = Some (- 2)
   \<and> fst (optimize (\<lambda>n m x f g orthant C st. (st\<lparr>iflag_m := - 2\<rparr>, x))
          (LBFGS_new :: (int, unit) LBFGS) 3 [0, 0, 0] 5 [1, 1, 1] False 0) = - 1"
proof -
  let ?st = "LBFGS_new :: (int, unit) LBFGS"
  let ?go = "\<lambda>n m x f g orthant C st. (st\<lparr>iflag_m := 1\<rparr>, map (\<lambda>v. v + 1) x)"
  let ?stop = "\<lambda>n m (x :: int list) f g orthant C st. (st\<lparr>iflag_m := 0\<rparr>, x)"
  let ?err = "\<lambda>n m (x :: int list) f g orthant C st. (st\<lparr>iflag_m := - 2\<rparr>, x)"
  have a: "iflag_after ?go ?st 3 [0, 0, 0] 5 [1, 1, 1] False 0 = Some 1"
    by (simp add: iflag_after_def optimize_alloc_def LBFGS_new_def)
  have b: "iflag_after ?stop ?st 3 [0, 0, 0] 5 [1, 1, 1] False 0 = Some 0"
    by (simp add: iflag_after_def optimize_alloc_def LBFGS_new_def)
  have c: "iflag_after ?err ?st 3 [0, 0, 0] 5 [1, 1, 1] False 0 = Some (- 2)"
    by (simp add: iflag_after_def optimize_alloc_def LBFGS_new_def)
  have d: "(- 2 :: cint) <s 0" "\<not> (1 :: cint) <s 0" "(1 :: cint) \<noteq> 0"
    by (simp_all add: word_sless_alt)
  note go = optimize_status [of ?go ?st 3 "[0, 0, 0]" 5 "[1, 1, 1]" False 0]
  from a d go
  have one: "fst (optimize ?go ?st 3 [0, 0, 0] 5 [1, 1, 1] False 0) = 1" by blast
  with go obtain st1 where
    "snd (optimize ?go ?st 3 [0, 0, 0] 5 [1, 1, 1] False 0)
       = ?go (ucast (3 :: size_t)) msize [0, 0, 0] 5 [1, 1, 1] False 0 st1"
    by blast
  then have x: "snd (snd (optimize ?go ?st 3 [0, 0, 0] 5 [1, 1, 1] False 0)) = [1, 1, 1]"
    by simp
  from b optimize_status [of ?stop ?st 3 "[0, 0, 0]" 5 "[1, 1, 1]" False 0]
  have zero: "fst (optimize ?stop ?st 3 [0, 0, 0] 5 [1, 1, 1] False 0) = 0" by blast
  from c d optimize_status [of ?err ?st 3 "[0, 0, 0]" 5 "[1, 1, 1]" False 0]
  have "fst (optimize ?err ?st 3 [0, 0, 0] 5 [1, 1, 1] False 0) = - 1" by blast
  with one x zero show ?thesis using a b c by blast
qed

text \<open>
  C4. The history size is the constant 100. On a call that finds \<open>w_\<close> empty (the first
  call, and the first after a \<open>clear\<close>) \<open>optimize\<close> passes the size check and gives
  \<open>lbfgs_optimize\<close> the history size 100, \<open>w_\<close> with \<open>size * (2 * 100 + 1) + 2 * 100\<close>
  entries (computed in \<open>size_t\<close>; the plain number when that does not exceed the range
  of \<open>size_t\<close>) and \<open>diag_\<close> with \<open>size\<close> entries.
\<close>

theorem optimize_first_call_allocates:
  "w_m st = [] \<Longrightarrow>
   msize = 100
   \<and> (\<exists>st1. optimize_alloc st sz = Some st1
        \<and> length (w_m st1) = unat (sz * (2 * 100 + 1) + 2 * 100)
        \<and> (unat sz * (2 * 100 + 1) + 2 * 100 < 2 ^ 64
             \<longrightarrow> length (w_m st1) = unat sz * (2 * 100 + 1) + 2 * 100)
        \<and> length (diag_m st1) = unat sz
        \<and> optimize lb st sz x f g orthant C
            = optimize_finish (lb (ucast sz) 100 x f g orthant C st1))"
proof -
  assume empty: "w_m st = []"
  let ?st1 = "st\<lparr>iflag_m := 0, w_m := resize (unat (sz * 201 + 200)) (w_m st),
                  diag_m := resize (unat sz) (diag_m st)\<rparr>"
  have alloc: "optimize_alloc st sz = Some ?st1"
    using empty by (simp add: optimize_alloc_def msize_size_t)
  have lw: "length (w_m ?st1) = unat (sz * 201 + 200)"
    by (simp add: length_resize)
  have plain: "unat (sz * 201 + 200) = unat sz * 201 + 200" if "unat sz * 201 + 200 < 2 ^ 64"
  proof -
    have "unat (sz * 201 + 200) = (unat sz * 201 + 200) mod 2 ^ 64"
      by (simp add: unat_word_ariths mod_simps)
    with that show ?thesis by simp
  qed
  have ld: "length (diag_m ?st1) = unat sz"
    by (simp add: length_resize)
  have run: "optimize lb st sz x f g orthant C
               = optimize_finish (lb (ucast sz) 100 x f g orthant C ?st1)"
    using alloc by (simp add: optimize_def msize_def)
  have "length (w_m ?st1) = unat sz * 201 + 200" if "unat sz * 201 + 200 < 2 ^ 64"
    using lw plain [OF that] by simp
  with alloc lw ld run show ?thesis
    by (intro conjI exI [of _ ?st1]) (simp_all add: msize_def length_resize)
qed

theorem optimize_first_call_allocates_witness:
  "w_m (LBFGS_new :: (int, unit) LBFGS) = []
   \<and> (\<exists>st1. optimize_alloc (LBFGS_new :: (int, unit) LBFGS) 3 = Some st1
         \<and> length (w_m st1) = 803 \<and> length (diag_m st1) = 3)"
proof -
  have e: "w_m (LBFGS_new :: (int, unit) LBFGS) = []"
    by (simp add: LBFGS_new_def)
  from optimize_first_call_allocates
    [OF e, of 3 "\<lambda>n m x f g orthant C st. (st, x)" "[]" 0 "[]" False 0]
  obtain st1 where "optimize_alloc (LBFGS_new :: (int, unit) LBFGS) 3 = Some st1"
    and "length (w_m st1) = unat (3 * (2 * 100 + 1) + 2 * 100 :: size_t)"
    and "length (diag_m st1) = unat (3 :: size_t)"
    by blast
  then show ?thesis using e by simp
qed

text \<open>
  A first call with a parameter count \<open>n\<close> for which the length of \<open>w_\<close> does not wrap
  around leaves the arrays allocated for \<open>n\<close>.
\<close>

lemma optimize_alloc_allocated:
  assumes "w_m st = []" and "unat n * 201 + 200 < 2 ^ 64"
  shows "\<exists>st1. optimize_alloc st n = Some st1 \<and> w_m st1 \<noteq> [] \<and> length (diag_m st1) = unat n"
proof -
  have "unat (n * 201 + 200) = (unat n * 201 + 200) mod 2 ^ 64"
    by (simp add: unat_word_ariths mod_simps)
  with assms(2) have "unat (n * 201 + 200) = unat n * 201 + 200"
    by simp
  then have "length (resize (unat (n * 201 + 200)) (w_m st)) \<noteq> 0"
    by (simp add: length_resize)
  then have "resize (unat (n * 201 + 200)) (w_m st) \<noteq> []"
    by simp
  with assms(1) show ?thesis
    by (simp add: optimize_alloc_def msize_size_t length_resize)
qed

text \<open>
  C9. Once the arrays are allocated for parameter count \<open>n\<close> (\<open>w_\<close> not empty, \<open>diag_\<close>
  of length \<open>n\<close>), a call with another count \<open>n'\<close> returns -1 at once: \<open>lbfgs_optimize\<close>
  is not called, and the object and the vector \<open>x\<close> are unchanged.
\<close>

theorem optimize_size_mismatch:
  "w_m st \<noteq> [] \<Longrightarrow> length (diag_m st) = unat n \<Longrightarrow> n' \<noteq> n \<Longrightarrow>
   optimize lb st n' x f g orthant C = (- 1, st, x)"
proof -
  assume alloc: "w_m st \<noteq> []" and len: "length (diag_m st) = unat n" and diff: "n' \<noteq> n"
  from diff have "unat n' \<noteq> unat n"
    by (simp add: word_unat_eq_iff)
  with len have "length (diag_m st) \<noteq> unat n'"
    by simp
  with alloc show ?thesis
    by (simp add: optimize_def optimize_alloc_def)
qed

theorem optimize_size_mismatch_witness:
  "optimize (\<lambda>n m x f g orthant C st. (st\<lparr>iflag_m := 1\<rparr>, map (\<lambda>v. v + 1) x))
     (fst (snd (optimize (\<lambda>n m x f g orthant C st. (st\<lparr>iflag_m := 1\<rparr>, map (\<lambda>v. v + 1) x))
        (LBFGS_new :: (int, unit) LBFGS) 3 [0, 0, 0] 5 [1, 1, 1] False 0)))
     4 [1, 1, 1, 1] 5 [1, 1, 1, 1] False 0
   = (- 1,
      fst (snd (optimize (\<lambda>n m x f g orthant C st. (st\<lparr>iflag_m := 1\<rparr>, map (\<lambda>v. v + 1) x))
        (LBFGS_new :: (int, unit) LBFGS) 3 [0, 0, 0] 5 [1, 1, 1] False 0)),
      [1, 1, 1, 1])"
proof -
  let ?go = "\<lambda>n m x f g orthant C st. (st\<lparr>iflag_m := 1\<rparr>, map (\<lambda>v. v + (1::int)) x)"
  let ?st = "fst (snd (optimize ?go (LBFGS_new :: (int, unit) LBFGS) 3 [0, 0, 0] 5 [1, 1, 1] False 0))"
  have st: "?st = LBFGS_new\<lparr>iflag_m := 1, w_m := replicate 803 0, diag_m := replicate 3 0\<rparr>"
    by (simp add: optimize_def optimize_alloc_def optimize_finish_def LBFGS_new_def resize_def
        msize_def word_sless_alt)
  have a: "w_m ?st \<noteq> []" unfolding st by simp
  have b: "length (diag_m ?st) = unat (3 :: size_t)" unfolding st by simp
  have c: "(4 :: size_t) \<noteq> 3" by simp
  show ?thesis
    by (rule optimize_size_mismatch [OF a b c])
qed

section \<open>Properties of the parameter store\<close>

subsection \<open>The dictionaries\<close>

lemma dict_wf_extend:
  assumes "dict_wf m v" and "m key = None"
  shows "dict_wf (m(key \<mapsto> length v)) (v @ [key])"
  unfolding dict_wf_def
proof (intro allI)
  fix k i
  show "((m(key \<mapsto> length v)) k = Some i) = (i < length (v @ [key]) \<and> (v @ [key]) ! i = k)"
  proof (cases "i < length v")
    case True
    from assms(1) have "m (v ! i) = Some i"
      using True by (simp add: dict_wf_def)
    with assms(2) have "v ! i \<noteq> key"
      by auto
    moreover from assms(1) have "m k = Some i \<longleftrightarrow> v ! i = k"
      using True by (simp add: dict_wf_def)
    ultimately show ?thesis
      using True by (auto simp: nth_append)
  next
    case False
    with assms show ?thesis
      by (cases "i = length v") (auto simp: dict_wf_def nth_append)
  qed
qed

lemma dict_wf_fresh: "dict_wf m v \<Longrightarrow> m k \<noteq> Some (length v)"
  by (auto simp: dict_wf_def)

lemma apply_op_state_wf:
  "dict_wf (m_StateMap p) (m_StateVec p) \<Longrightarrow>
   dict_wf (m_StateMap (apply_op p op)) (m_StateVec (apply_op p op))"
  by (cases op)
     (auto simp: addNewState_def addNewObs_def updateParam_def endUpdate_def initialize_def
        setWeight_def Let_def dict_wf_extend split: option.splits)

lemma apply_op_feature_wf:
  "dict_wf (m_FeatureMap p) (m_FeatureVec p) \<Longrightarrow>
   dict_wf (m_FeatureMap (apply_op p op)) (m_FeatureVec (apply_op p op))"
  by (cases op)
     (auto simp: addNewState_def addNewObs_def updateParam_def endUpdate_def initialize_def
        setWeight_def Let_def dict_wf_extend split: option.splits)

lemma run_ops_snoc: "run_ops p (ops @ [op]) = apply_op (run_ops p ops) op"
  by (simp add: run_ops_def)

lemma run_ops_wf:
  "dict_wf (m_StateMap (run_ops (Parameter_new edge dflt) ops))
           (m_StateVec (run_ops (Parameter_new edge dflt) ops))
   \<and> dict_wf (m_FeatureMap (run_ops (Parameter_new edge dflt) ops))
             (m_FeatureVec (run_ops (Parameter_new edge dflt) ops))"
proof (induction ops rule: rev_induct)
  case Nil
  show ?case by (auto simp: run_ops_def Parameter_new_def dict_wf_def)
next
  case (snoc op ops)
  then show ?case
    by (simp add: run_ops_snoc apply_op_state_wf apply_op_feature_wf)
qed

lemma apply_op_state_stable:
  "m_StateMap p k = Some i \<Longrightarrow> m_StateMap (apply_op p op) k = Some i"
  by (cases op)
     (auto simp: addNewState_def addNewObs_def updateParam_def endUpdate_def initialize_def
        setWeight_def Let_def split: option.splits)

lemma apply_op_feature_stable:
  "m_FeatureMap p k = Some i \<Longrightarrow> m_FeatureMap (apply_op p op) k = Some i"
  by (cases op)
     (auto simp: addNewState_def addNewObs_def updateParam_def endUpdate_def initialize_def
        setWeight_def Let_def split: option.splits)

lemma run_ops_state_stable:
  "m_StateMap p k = Some i \<Longrightarrow> m_StateMap (run_ops p later) k = Some i"
  by (induction later rule: rev_induct) (simp_all add: run_ops_def apply_op_state_stable)

lemma run_ops_feature_stable:
  "m_FeatureMap p k = Some i \<Longrightarrow> m_FeatureMap (run_ops p later) k = Some i"
  by (induction later rule: rev_induct) (simp_all add: run_ops_def apply_op_feature_stable)

lemma addNewState_twice: "addNewState (snd (addNewState p key)) key = addNewState p key"
  by (simp add: addNewState_def split: option.splits)

lemma addNewObs_twice: "addNewObs (snd (addNewObs p key)) key = addNewObs p key"
  by (simp add: addNewObs_def split: option.splits)

lemma addNewState_first:
  "findState p key = None \<Longrightarrow>
   fst (addNewState p key) = sizeStateVec p
   \<and> sizeStateVec (snd (addNewState p key)) = Suc (sizeStateVec p)
   \<and> findState (snd (addNewState p key)) key = Some (sizeStateVec p)"
  by (simp add: addNewState_def findState_def sizeStateVec_def)

lemma addNewObs_first:
  "findObs p key = None \<Longrightarrow>
   fst (addNewObs p key) = sizeFeatureVec p
   \<and> sizeFeatureVec (snd (addNewObs p key)) = Suc (sizeFeatureVec p)
   \<and> findObs (snd (addNewObs p key)) key = Some (sizeFeatureVec p)"
  by (simp add: addNewObs_def findObs_def sizeFeatureVec_def)

lemma addNewState_hit: "findState p k = Some i \<Longrightarrow> addNewState p k = (i, p)"
  by (simp add: addNewState_def findState_def)

lemma addNewObs_hit: "findObs p k = Some i \<Longrightarrow> addNewObs p k = (i, p)"
  by (simp add: addNewObs_def findObs_def)

text \<open>
  C3. In every store reached from the constructor by any operations: the first
  \<open>addNewState\<close> (\<open>addNewObs\<close>) of a name returns the size of the dictionary, an id that no
  name has, and the dictionary grows by one; a second call with the same name returns
  the same id and the same store; a name that has an id keeps it under any further
  operations; and a call with a name that has an id returns that id and leaves the
  store as it is, at once and after any further operations.
\<close>

theorem intern_idempotent:
  "p = run_ops (Parameter_new edge dflt) ops \<Longrightarrow>
   (findState p key = None \<longrightarrow>
      fst (addNewState p key) = sizeStateVec p
      \<and> (\<forall>k. findState p k \<noteq> Some (sizeStateVec p))
      \<and> sizeStateVec (snd (addNewState p key)) = Suc (sizeStateVec p)
      \<and> findState (snd (addNewState p key)) key = Some (sizeStateVec p))
   \<and> addNewState (snd (addNewState p key)) key = addNewState p key
   \<and> (findState p k = Some i \<longrightarrow> findState (run_ops p later) k = Some i)
   \<and> (findState p k = Some i \<longrightarrow>
        addNewState p k = (i, p)
        \<and> addNewState (run_ops p later) k = (i, run_ops p later))
   \<and> (findObs p key = None \<longrightarrow>
      fst (addNewObs p key) = sizeFeatureVec p
      \<and> (\<forall>k. findObs p k \<noteq> Some (sizeFeatureVec p))
      \<and> sizeFeatureVec (snd (addNewObs p key)) = Suc (sizeFeatureVec p)
      \<and> findObs (snd (addNewObs p key)) key = Some (sizeFeatureVec p))
   \<and> addNewObs (snd (addNewObs p key)) key = addNewObs p key
   \<and> (findObs p k = Some i \<longrightarrow> findObs (run_ops p later) k = Some i)
   \<and> (findObs p k = Some i \<longrightarrow>
        addNewObs p k = (i, p)
        \<and> addNewObs (run_ops p later) k = (i, run_ops p later))"
proof -
  assume p: "p = run_ops (Parameter_new edge dflt) ops"
  have wfs: "dict_wf (m_StateMap p) (m_StateVec p)"
    and wff: "dict_wf (m_FeatureMap p) (m_FeatureVec p)"
    using run_ops_wf [of edge dflt ops] p by simp_all
  have fresh_s: "\<forall>k. findState p k \<noteq> Some (sizeStateVec p)"
    using dict_wf_fresh [OF wfs] by (simp add: findState_def sizeStateVec_def)
  have fresh_f: "\<forall>k. findObs p k \<noteq> Some (sizeFeatureVec p)"
    using dict_wf_fresh [OF wff] by (simp add: findObs_def sizeFeatureVec_def)
  have stable_s: "findState p k = Some i \<longrightarrow> findState (run_ops p later) k = Some i"
    by (simp add: findState_def run_ops_state_stable)
  have stable_f: "findObs p k = Some i \<longrightarrow> findObs (run_ops p later) k = Some i"
    by (simp add: findObs_def run_ops_feature_stable)
  have hit_s: "findState p k = Some i \<longrightarrow>
      addNewState p k = (i, p) \<and> addNewState (run_ops p later) k = (i, run_ops p later)"
    using stable_s by (simp add: addNewState_hit)
  have hit_f: "findObs p k = Some i \<longrightarrow>
      addNewObs p k = (i, p) \<and> addNewObs (run_ops p later) k = (i, run_ops p later)"
    using stable_f by (simp add: addNewObs_hit)
  have first_s: "findState p key = None \<longrightarrow>
      fst (addNewState p key) = sizeStateVec p
      \<and> (\<forall>k. findState p k \<noteq> Some (sizeStateVec p))
      \<and> sizeStateVec (snd (addNewState p key)) = Suc (sizeStateVec p)
      \<and> findState (snd (addNewState p key)) key = Some (sizeStateVec p)"
    using fresh_s addNewState_first [of p key] by blast
  have first_f: "findObs p key = None \<longrightarrow>
      fst (addNewObs p key) = sizeFeatureVec p
      \<and> (\<forall>k. findObs p k \<noteq> Some (sizeFeatureVec p))
      \<and> sizeFeatureVec (snd (addNewObs p key)) = Suc (sizeFeatureVec p)
      \<and> findObs (snd (addNewObs p key)) key = Some (sizeFeatureVec p)"
    using fresh_f addNewObs_first [of p key] by blast
  from first_s stable_s hit_s first_f stable_f hit_f show ?thesis
    using addNewState_twice [of p key] addNewObs_twice [of p key] by (intro conjI)
qed


theorem intern_idempotent_witness:
  "findState (run_ops (Parameter_new ''@'' ''O'' :: int Parameter)
               [AddNewState ''B-PER'', AddNewObs ''word=John'']) ''I-PER'' = None
   \<and> fst (addNewState (run_ops (Parameter_new ''@'' ''O'' :: int Parameter)
               [AddNewState ''B-PER'', AddNewObs ''word=John'']) ''I-PER'') = 2
   \<and> addNewState (snd (addNewState (run_ops (Parameter_new ''@'' ''O'' :: int Parameter)
               [AddNewState ''B-PER'', AddNewObs ''word=John'']) ''I-PER'')) ''I-PER''
       = addNewState (run_ops (Parameter_new ''@'' ''O'' :: int Parameter)
               [AddNewState ''B-PER'', AddNewObs ''word=John'']) ''I-PER''
   \<and> findState (run_ops (Parameter_new ''@'' ''O'' :: int Parameter)
               [AddNewState ''B-PER'', AddNewObs ''word=John'']) ''B-PER'' = Some 1
   \<and> findState (run_ops (run_ops (Parameter_new ''@'' ''O'' :: int Parameter)
               [AddNewState ''B-PER'', AddNewObs ''word=John''])
               [AddNewState ''I-PER'', AddNewState ''B-PER'', EndUpdate]) ''B-PER'' = Some 1
   \<and> addNewState (run_ops (run_ops (Parameter_new ''@'' ''O'' :: int Parameter)
               [AddNewState ''B-PER'', AddNewObs ''word=John''])
               [AddNewState ''I-PER'', AddNewState ''B-PER'', EndUpdate]) ''B-PER''
       = (1, run_ops (run_ops (Parameter_new ''@'' ''O'' :: int Parameter)
               [AddNewState ''B-PER'', AddNewObs ''word=John''])
               [AddNewState ''I-PER'', AddNewState ''B-PER'', EndUpdate])
   \<and> findObs (run_ops (Parameter_new ''@'' ''O'' :: int Parameter)
               [AddNewState ''B-PER'', AddNewObs ''word=John'']) ''I-PER'' = None
   \<and> fst (addNewObs (run_ops (Parameter_new ''@'' ''O'' :: int Parameter)
               [AddNewState ''B-PER'', AddNewObs ''word=John'']) ''I-PER'') = 1
   \<and> findObs (run_ops (Parameter_new ''@'' ''O'' :: int Parameter)
               [AddNewState ''B-PER'', AddNewObs ''word=John'']) ''word=John'' = Some 0
   \<and> addNewObs (run_ops (run_ops (Parameter_new ''@'' ''O'' :: int Parameter)
               [AddNewState ''B-PER'', AddNewObs ''word=John''])
               [AddNewObs ''word=Smith'', EndUpdate]) ''word=John''
       = (0, run_ops (run_ops (Parameter_new ''@'' ''O'' :: int Parameter)
               [AddNewState ''B-PER'', AddNewObs ''word=John''])
               [AddNewObs ''word=Smith'', EndUpdate])"
proof -
  let ?p = "run_ops (Parameter_new ''@'' ''O'' :: int Parameter)
              [AddNewState ''B-PER'', AddNewObs ''word=John'']"
  have a: "findState ?p ''I-PER'' = None"
    by (simp add: run_ops_def Parameter_new_def addNewState_def addNewObs_def findState_def)
  have b: "findState ?p ''B-PER'' = Some 1"
    by (simp add: run_ops_def Parameter_new_def addNewState_def addNewObs_def findState_def)
  have c: "findObs ?p ''I-PER'' = None"
    by (simp add: run_ops_def Parameter_new_def addNewState_def addNewObs_def findObs_def)
  have e: "findObs ?p ''word=John'' = Some 0"
    by (simp add: run_ops_def Parameter_new_def addNewState_def addNewObs_def findObs_def)
  have d: "sizeStateVec ?p = 2" "sizeFeatureVec ?p = 1"
    by (simp_all add: run_ops_def Parameter_new_def addNewState_def addNewObs_def
        sizeStateVec_def sizeFeatureVec_def)
  note t = intern_idempotent [OF refl, where edge = "''@''" and dflt = "''O''"
      and ops = "[AddNewState ''B-PER'', AddNewObs ''word=John'']" and key = "''I-PER''"
      and k = "''B-PER''" and i = 1
      and later = "[AddNewState ''I-PER'', AddNewState ''B-PER'', EndUpdate]"]
  note u = intern_idempotent [OF refl, where edge = "''@''" and dflt = "''O''"
      and ops = "[AddNewState ''B-PER'', AddNewObs ''word=John'']" and key = "''I-PER''"
      and k = "''word=John''" and i = 0
      and later = "[AddNewObs ''word=Smith'', EndUpdate]"]
  from t a have s1: "fst (addNewState ?p ''I-PER'') = sizeStateVec ?p"
    by blast
  from t have s2: "addNewState (snd (addNewState ?p ''I-PER'')) ''I-PER''
      = addNewState ?p ''I-PER''"
    by blast
  from t b have s3: "findState (run_ops ?p [AddNewState ''I-PER'', AddNewState ''B-PER'',
      EndUpdate]) ''B-PER'' = Some 1"
    by blast
  from t c have s4: "fst (addNewObs ?p ''I-PER'') = sizeFeatureVec ?p"
    by blast
  from t b have s5: "addNewState (run_ops ?p [AddNewState ''I-PER'', AddNewState ''B-PER'',
      EndUpdate]) ''B-PER''
      = (1, run_ops ?p [AddNewState ''I-PER'', AddNewState ''B-PER'', EndUpdate])"
    by blast
  from u e have s6: "addNewObs (run_ops ?p [AddNewObs ''word=Smith'', EndUpdate]) ''word=John''
      = (0, run_ops ?p [AddNewObs ''word=Smith'', EndUpdate])"
    by blast
  from a b c e s1 s2 s3 s4 s5 s6 show ?thesis
    unfolding d by blast
qed

subsection \<open>The default state\<close>

lemma apply_op_default:
  "m_default_oid p = 0 \<and> m_StateMap p dflt = Some 0 \<and> m_StateVec p \<noteq> []
     \<and> m_StateVec p ! 0 = dflt \<Longrightarrow>
   m_default_oid (apply_op p op) = 0 \<and> m_StateMap (apply_op p op) dflt = Some 0
     \<and> m_StateVec (apply_op p op) \<noteq> [] \<and> m_StateVec (apply_op p op) ! 0 = dflt"
  by (cases op)
     (auto simp: addNewState_def addNewObs_def updateParam_def endUpdate_def initialize_def
        setWeight_def Let_def nth_append split: option.splits)

lemma run_ops_default:
  "m_default_oid (run_ops (Parameter_new edge dflt) ops) = 0
   \<and> m_StateMap (run_ops (Parameter_new edge dflt) ops) dflt = Some 0
   \<and> m_StateVec (run_ops (Parameter_new edge dflt) ops) \<noteq> []
   \<and> m_StateVec (run_ops (Parameter_new edge dflt) ops) ! 0 = dflt"
proof (induction ops rule: rev_induct)
  case Nil
  show ?case by (simp add: run_ops_def Parameter_new_def)
next
  case (snoc op ops)
  from apply_op_default [OF snoc.IH] show ?case
    by (simp add: run_ops_snoc)
qed

lemma dict_wf_absent: "dict_wf m v \<Longrightarrow> key \<notin> set v \<Longrightarrow> m key = None"
proof (rule ccontr)
  assume wf: "dict_wf m v" and absent: "key \<notin> set v" and "m key \<noteq> None"
  then obtain i where "m key = Some i" by auto
  with wf have "i < length v" "v ! i = key" by (simp_all add: dict_wf_def)
  then have "key \<in> set v" by auto
  with absent show False by simp
qed

text \<open>
  C6. In every store reached from the constructor by any operations the state
  dictionary holds the reserved default state: \<open>getDefaultState\<close> is a valid id, it is
  the id of the reserved name, and \<open>findState\<close> finds it. For a name that is not in the
  dictionary \<open>findState\<close> reports "not found", and for a name that \<open>findState\<close> does not
  find the test-time label is the default state; the result is never an error value,
  and computing it only reads the store, so nothing is counted.
\<close>

theorem default_state_reserved:
  "p = run_ops (Parameter_new edge dflt) ops \<Longrightarrow>
   getDefaultState p < sizeStateVec p
   \<and> m_StateVec p ! getDefaultState p = dflt
   \<and> findState p dflt = Some (getDefaultState p)
   \<and> (name \<notin> set (m_StateVec p) \<longrightarrow> findState p name = None)
   \<and> (findState p name = None \<longrightarrow> test_label p name = Inr (getDefaultState p))
   \<and> (\<forall>e. test_label p name \<noteq> Inl e)"
proof -
  assume p: "p = run_ops (Parameter_new edge dflt) ops"
  from run_ops_default [of edge dflt ops] p
  have d: "m_default_oid p = 0" "m_StateMap p dflt = Some 0" "m_StateVec p \<noteq> []"
    "m_StateVec p ! 0 = dflt"
    by simp_all
  from run_ops_wf [of edge dflt ops] p
  have "dict_wf (m_StateMap p) (m_StateVec p)"
    by simp
  then have "name \<notin> set (m_StateVec p) \<longrightarrow> findState p name = None"
    by (simp add: findState_def dict_wf_absent)
  with d show ?thesis
    by (simp add: getDefaultState_def sizeStateVec_def findState_def test_label_def
        split: option.splits)
qed

theorem default_state_reserved_witness:
  "''I-LOC'' \<notin> set (m_StateVec (run_ops (Parameter_new ''@'' ''O'' :: int Parameter)
               [AddNewState ''B-PER'', AddNewObs ''word=John'', EndUpdate]))
   \<and> findState (run_ops (Parameter_new ''@'' ''O'' :: int Parameter)
               [AddNewState ''B-PER'', AddNewObs ''word=John'', EndUpdate]) ''I-LOC'' = None
   \<and> test_label (run_ops (Parameter_new ''@'' ''O'' :: int Parameter)
               [AddNewState ''B-PER'', AddNewObs ''word=John'', EndUpdate]) ''I-LOC''
       = Inr (getDefaultState (run_ops (Parameter_new ''@'' ''O'' :: int Parameter)
               [AddNewState ''B-PER'', AddNewObs ''word=John'', EndUpdate]))
   \<and> findState (run_ops (Parameter_new ''@'' ''O'' :: int Parameter)
               [AddNewState ''B-PER'', AddNewObs ''word=John'', EndUpdate]) ''O''
       = Some (getDefaultState (run_ops (Parameter_new ''@'' ''O'' :: int Parameter)
               [AddNewState ''B-PER'', AddNewObs ''word=John'', EndUpdate]))"
proof -
  let ?p = "run_ops (Parameter_new ''@'' ''O'' :: int Parameter)
              [AddNewState ''B-PER'', AddNewObs ''word=John'', EndUpdate]"
  have a: "''I-LOC'' \<notin> set (m_StateVec ?p)"
    by (simp add: run_ops_def Parameter_new_def addNewState_def addNewObs_def
        endUpdate_def initialize_def)
  note t = default_state_reserved [OF refl, of "''@''" "''O''"
      "[AddNewState ''B-PER'', AddNewObs ''word=John'', EndUpdate]" "''I-LOC''"]
  from t a have b: "findState ?p ''I-LOC'' = None"
    by blast
  from t b have c: "test_label ?p ''I-LOC'' = Inr (getDefaultState ?p)"
    by blast
  from t have d: "findState ?p ''O'' = Some (getDefaultState ?p)"
    by blast
  from a b c d show ?thesis
    by blast
qed

subsection \<open>Finalisation\<close>

lemma obs_index_of_endUpdate:
  "obs_index_of (endUpdate p) y = sort_key fst (obs_index_of p y)"
  by (simp add: obs_index_of_def endUpdate_def initialize_def)

lemma apply_op_finalized: "finalized p \<Longrightarrow> finalized (apply_op p op)"
  by (cases op)
     (auto simp: addNewState_def addNewObs_def updateParam_def endUpdate_def initialize_def
        setWeight_def split: option.splits)

lemma run_ops_finalized: "finalized p \<Longrightarrow> finalized (run_ops p later)"
  by (induction later rule: rev_induct)
     (simp_all add: run_ops_snoc apply_op_finalized, simp add: run_ops_def)

lemma apply_op_weight:
  "(\<forall>theta. op \<noteq> SetWeight theta) \<Longrightarrow> op \<noteq> EndUpdate \<Longrightarrow>
   m_Weight (apply_op p op) = m_Weight p"
  by (cases op)
     (auto simp: addNewState_def addNewObs_def updateParam_def Let_def split: option.splits)

text \<open>A successful \<open>updateParam\<close> leaves the pair and its weight index in the row.\<close>

lemma updateParam_recorded:
  assumes "updateParam p0 oid pid val = Inr (widx, p)"
  shows "(pid, widx) \<in> set (obs_index_of p oid)"
proof (cases "map_of (obs_index_of p0 oid) pid")
  case None
  let ?rows = "m_ParamIndex p0 @ replicate (Suc oid - length (m_ParamIndex p0)) []"
  have len: "oid < length ?rows" by simp
  from assms None
  have p: "p = p0\<lparr>m_ParamIndex := ?rows[oid := ?rows ! oid @ [(pid, n_weight p0)]],
                  n_weight := Suc (n_weight p0)\<rparr>"
    and w: "widx = n_weight p0"
    by (auto simp: updateParam_def Let_def split: if_splits)
  have "obs_index_of p oid = ?rows ! oid @ [(pid, widx)]"
    unfolding p w obs_index_of_def using len by simp
  then show ?thesis by simp
next
  case (Some w)
  with assms have "p = p0" "widx = w"
    by (simp_all add: updateParam_def split: if_splits)
  with Some show ?thesis
    by (simp add: map_of_SomeD)
qed

text \<open>
  C5. After \<open>endUpdate\<close> on a store with \<open>W = size()\<close> weight slots: the weight, gradient
  and count vectors are zero vectors of length \<open>W\<close>; every row of \<open>m_ParamIndex\<close> holds
  exactly the recorded \<open>(fid, weight index)\<close> pairs of its state, sorted by \<open>fid\<close>, among
  them the pair and the index returned by an \<open>updateParam\<close> that produced the store; every
  later \<open>updateParam\<close>, after any further operations, is the error \<open>StructureFrozen\<close>;
  and no later dictionary or record operation changes the weight vector, which
  changes only by the optimizer's \<open>setWeight\<close> (or by finalising again).
\<close>

theorem endUpdate_finalizes:
  "p' = endUpdate p \<Longrightarrow>
   m_Weight p' = replicate (Parameter_size p) 0
   \<and> m_Gradient p' = replicate (Parameter_size p) 0
   \<and> m_Count p' = replicate (Parameter_size p) 0
   \<and> Parameter_size p' = Parameter_size p
   \<and> set (obs_index_of p' y) = set (obs_index_of p y)
   \<and> sorted (map fst (obs_index_of p' y))
   \<and> (updateParam p0 y fid val0 = Inr (widx, p) \<longrightarrow> (fid, widx) \<in> set (obs_index_of p' y))
   \<and> updateParam (run_ops p' later) oid pid val = Inl StructureFrozen
   \<and> ((\<forall>theta. op \<noteq> SetWeight theta) \<and> op \<noteq> EndUpdate \<longrightarrow>
        m_Weight (apply_op (run_ops p' later) op) = m_Weight (run_ops p' later))"
proof -
  assume p': "p' = endUpdate p"
  have vecs: "m_Weight p' = replicate (Parameter_size p) 0"
    "m_Gradient p' = replicate (Parameter_size p) 0"
    "m_Count p' = replicate (Parameter_size p) 0"
    "Parameter_size p' = Parameter_size p"
    by (simp_all add: p' endUpdate_def initialize_def Parameter_size_def)
  have index: "set (obs_index_of p' y) = set (obs_index_of p y)"
    "sorted (map fst (obs_index_of p' y))"
    by (simp_all add: p' obs_index_of_endUpdate)
  have recorded: "updateParam p0 y fid val0 = Inr (widx, p) \<longrightarrow>
      (fid, widx) \<in> set (obs_index_of p' y)"
    using index(1) by (auto dest: updateParam_recorded)
  have "finalized p'"
    by (simp add: p' endUpdate_def initialize_def)
  then have "finalized (run_ops p' later)"
    by (rule run_ops_finalized)
  then have frozen: "updateParam (run_ops p' later) oid pid val = Inl StructureFrozen"
    by (simp add: updateParam_def)
  from vecs index recorded frozen show ?thesis
    by (simp add: apply_op_weight)
qed

theorem endUpdate_finalizes_witness:
  "updateParam (run_ops (Parameter_new ''@'' ''O'' :: int Parameter)
      [AddNewState ''B'', AddNewObs ''f0'', AddNewObs ''f1'',
       UpdateParam 1 1 1, UpdateParam 1 0 1, UpdateParam 0 1 1]) 1 1 1
     = Inr (0, run_ops (Parameter_new ''@'' ''O'' :: int Parameter)
      [AddNewState ''B'', AddNewObs ''f0'', AddNewObs ''f1'',
       UpdateParam 1 1 1, UpdateParam 1 0 1, UpdateParam 0 1 1])
   \<and> (1, 0) \<in> set (obs_index_of (endUpdate (run_ops (Parameter_new ''@'' ''O'' :: int Parameter)
      [AddNewState ''B'', AddNewObs ''f0'', AddNewObs ''f1'',
       UpdateParam 1 1 1, UpdateParam 1 0 1, UpdateParam 0 1 1])) 1)
   \<and> m_Weight (endUpdate (run_ops (Parameter_new ''@'' ''O'' :: int Parameter)
      [AddNewState ''B'', AddNewObs ''f0'', AddNewObs ''f1'',
       UpdateParam 1 1 1, UpdateParam 1 0 1, UpdateParam 0 1 1]))
     = [0, 0, 0]
   \<and> obs_index_of (endUpdate (run_ops (Parameter_new ''@'' ''O'' :: int Parameter)
      [AddNewState ''B'', AddNewObs ''f0'', AddNewObs ''f1'',
       UpdateParam 1 1 1, UpdateParam 1 0 1, UpdateParam 0 1 1])) 1
     = [(0, 1), (1, 0)]
   \<and> updateParam (run_ops (endUpdate (run_ops (Parameter_new ''@'' ''O'' :: int Parameter)
      [AddNewState ''B'', AddNewObs ''f0'', AddNewObs ''f1'',
       UpdateParam 1 1 1, UpdateParam 1 0 1, UpdateParam 0 1 1]))
      [AddNewObs ''f2'']) 1 2 1 = Inl StructureFrozen
   \<and> m_Weight (apply_op (run_ops (endUpdate (run_ops (Parameter_new ''@'' ''O'' :: int Parameter)
      [AddNewState ''B'', AddNewObs ''f0'', AddNewObs ''f1'',
       UpdateParam 1 1 1, UpdateParam 1 0 1, UpdateParam 0 1 1]))
      [AddNewObs ''f2'']) (UpdateParam 1 2 1)) = [0, 0, 0]"
proof -
  let ?p = "run_ops (Parameter_new ''@'' ''O'' :: int Parameter)
      [AddNewState ''B'', AddNewObs ''f0'', AddNewObs ''f1'',
       UpdateParam 1 1 1, UpdateParam 1 0 1, UpdateParam 0 1 1]"
  have rows: "m_ParamIndex ?p = [[(1, 2)], [(1, 0), (0, 1)]]" and n: "n_weight ?p = 3"
    and nf: "finalized ?p = False"
    by (simp_all add: run_ops_def Parameter_new_def addNewState_def addNewObs_def
        updateParam_def obs_index_of_def Let_def)
  have look: "map_of (obs_index_of ?p 1) 1 = Some 0"
    unfolding obs_index_of_def rows by simp
  have dup: "updateParam ?p 1 1 1 = Inr (0, ?p)"
    unfolding updateParam_def nf look by simp
  have idx: "obs_index_of (endUpdate ?p) 1 = [(0, 1), (1, 0)]"
    unfolding obs_index_of_endUpdate unfolding obs_index_of_def rows by simp
  have sz: "Parameter_size ?p = 3"
    unfolding Parameter_size_def by (rule n)
  have zeros: "replicate 3 (0::int) = [0, 0, 0]"
    by (simp add: numeral_3_eq_3)
  have "m_Weight (run_ops q [AddNewObs ''f2'']) = m_Weight q" for q :: "int Parameter"
    by (simp add: run_ops_def addNewObs_def split: option.splits)
  then have w: "m_Weight (run_ops (endUpdate ?p) [AddNewObs ''f2'']) = m_Weight (endUpdate ?p)" .
  have op: "(\<forall>theta. UpdateParam 1 2 (1::int) \<noteq> SetWeight theta) \<and> UpdateParam 1 2 (1::int) \<noteq> EndUpdate"
    by simp
  note t = endUpdate_finalizes
    [OF refl, where p = ?p and y = 1 and ?p0.0 = ?p and fid = 1 and ?val0.0 = 1 and widx = 0
       and later = "[AddNewObs ''f2'']" and oid = 1 and pid = 2 and val = 1
       and op = "UpdateParam 1 2 1"]
  from t have s1: "m_Weight (endUpdate ?p) = replicate (Parameter_size ?p) 0"
    by (elim conjE)
  from t have "updateParam ?p 1 1 1 = Inr (0, ?p) \<longrightarrow> (1, 0) \<in> set (obs_index_of (endUpdate ?p) 1)"
    by (elim conjE)
  from this [rule_format, OF dup]
  have s0: "(1, 0) \<in> set (obs_index_of (endUpdate ?p) 1)" .
  from t have s2: "updateParam (run_ops (endUpdate ?p) [AddNewObs ''f2'']) 1 2 1
      = Inl StructureFrozen"
    by (elim conjE)
  from t have "(\<forall>theta. UpdateParam 1 2 (1::int) \<noteq> SetWeight theta)
        \<and> UpdateParam 1 2 (1::int) \<noteq> EndUpdate \<longrightarrow>
      m_Weight (apply_op (run_ops (endUpdate ?p) [AddNewObs ''f2'']) (UpdateParam 1 2 1))
        = m_Weight (run_ops (endUpdate ?p) [AddNewObs ''f2''])"
    by (elim conjE)
  from this [rule_format, OF op]
  have s3: "m_Weight (apply_op (run_ops (endUpdate ?p) [AddNewObs ''f2''])
      (UpdateParam 1 2 1)) = m_Weight (run_ops (endUpdate ?p) [AddNewObs ''f2''])" .
  from s1 have s1': "m_Weight (endUpdate ?p) = [0, 0, 0]"
    unfolding sz zeros .
  from s3 have s3': "m_Weight (apply_op (run_ops (endUpdate ?p) [AddNewObs ''f2''])
      (UpdateParam 1 2 1)) = [0, 0, 0]"
    unfolding w s1' .
  from dup s0 s1' idx s2 s3' show ?thesis
    by (intro conjI)
qed

section \<open>Properties of the Viterbi decoder\<close>

subsection \<open>The maximum scan\<close>

lemma argmax_scan:
  fixes xs :: "'v::linorder list"
  shows "n \<le> length xs \<Longrightarrow> 0 < n \<Longrightarrow>
   fold (\<lambda>i best. if xs ! best < xs ! i then i else best) [1..<n] 0 < n
   \<and> (\<forall>i<n. xs ! i \<le> xs ! fold (\<lambda>i best. if xs ! best < xs ! i then i else best) [1..<n] 0)
   \<and> (\<forall>i < fold (\<lambda>i best. if xs ! best < xs ! i then i else best) [1..<n] 0.
          xs ! i < xs ! fold (\<lambda>i best. if xs ! best < xs ! i then i else best) [1..<n] 0)"
proof (induction n)
  case 0
  then show ?case by simp
next
  case (Suc n)
  let ?f = "\<lambda>i best. if xs ! best < xs ! i then i else best"
  show ?case
  proof (cases "n = 0")
    case True
    then show ?thesis by simp
  next
    case False
    then have n: "0 < n" "n \<le> length xs" using Suc.prems by simp_all
    let ?b = "fold ?f [1..<n] 0"
    from Suc.IH [OF n(2) n(1)]
    have b: "?b < n" and ge: "\<forall>i<n. xs ! i \<le> xs ! ?b" and gt: "\<forall>i<?b. xs ! i < xs ! ?b"
      by blast+
    have step: "fold ?f [1..<Suc n] 0 = (if xs ! ?b < xs ! n then n else ?b)"
      using n(1) by (simp add: upt_Suc_append [of 1 n])
    show ?thesis
    proof (cases "xs ! ?b < xs ! n")
      case True
      with step have eq: "fold ?f [1..<Suc n] 0 = n" by simp
      have "\<forall>i<Suc n. xs ! i \<le> xs ! n"
        using ge True by (auto simp: less_Suc_eq intro: order.trans less_imp_le)
      moreover have "\<forall>i<n. xs ! i < xs ! n"
        using ge True by (auto intro: le_less_trans)
      ultimately show ?thesis unfolding eq by simp
    next
      case False
      with step have eq: "fold ?f [1..<Suc n] 0 = ?b" by simp
      have "\<forall>i<Suc n. xs ! i \<le> xs ! ?b"
        using ge False by (auto simp: less_Suc_eq)
      with b gt show ?thesis unfolding eq by simp
    qed
  qed
qed

lemma argmax_less: "xs \<noteq> [] \<Longrightarrow> argmax xs < length xs"
  using argmax_scan [of "length xs" xs] by (simp add: argmax_def)

lemma argmax_ge: "i < length xs \<Longrightarrow> xs ! i \<le> xs ! argmax xs"
  using argmax_scan [of "length xs" xs] by (cases xs) (simp_all add: argmax_def)

lemma argmax_first: "i < argmax xs \<Longrightarrow> xs ! i < xs ! argmax xs"
proof -
  assume i: "i < argmax xs"
  then have "xs \<noteq> []" by (auto simp: argmax_def)
  with argmax_scan [of "length xs" xs] i show ?thesis
    by (simp add: argmax_def)
qed


subsection \<open>One lattice\<close>

lemma lattice_ok_R:
  "lattice_ok L \<Longrightarrow> t < length (R_node L) \<Longrightarrow> y < n_state L \<Longrightarrow> 0 \<le> R_node L ! t ! y"
  by (simp add: lattice_ok_def list_all_length)

lemma lattice_ok_M:
  "lattice_ok L \<Longrightarrow> t < length (R_node L) \<Longrightarrow> j < n_state L * n_state L \<Longrightarrow>
   0 \<le> M_edge L ! t ! j"
  by (simp add: lattice_ok_def list_all_length)

lemma edge_index: "y' < (S::nat) \<Longrightarrow> y < S \<Longrightarrow> y' * S + y < S * S"
proof -
  assume a: "y' < S" and b: "y < S"
  then have "y' * S + y < y' * S + S" by simp
  also have "\<dots> = Suc y' * S" by simp
  also have "\<dots> \<le> S * S" using a by (simp only: Suc_le_eq [symmetric] mult_le_mono1)
  finally show ?thesis .
qed

lemma length_viterbi_delta: "length (viterbi_delta L t) = n_state L"
  by (cases t) simp_all

lemma length_viterbi_cand: "length (viterbi_cand L t delta y) = n_state L"
  by (simp add: viterbi_cand_def)

lemma viterbi_cand_nth:
  "y' < n_state L \<Longrightarrow>
   viterbi_cand L t delta y ! y' = delta ! y' * M_edge L ! t ! (y' * n_state L + y)"
  by (simp add: viterbi_cand_def)

lemma viterbi_psi_nth:
  "y < n_state L \<Longrightarrow>
   viterbi_psi L (Suc t) ! y = argmax (viterbi_cand L (Suc t) (viterbi_delta L t) y)"
  by (simp add: viterbi_psi_def)

lemma viterbi_psi_less:
  "0 < n_state L \<Longrightarrow> y < n_state L \<Longrightarrow> viterbi_psi L (Suc t) ! y < n_state L"
proof -
  assume S: "0 < n_state L" and y: "y < n_state L"
  let ?c = "viterbi_cand L (Suc t) (viterbi_delta L t) y"
  from S have "?c \<noteq> []"
    using length_viterbi_cand [of L "Suc t" "viterbi_delta L t" y] by auto
  then have "argmax ?c < length ?c" by (rule argmax_less)
  with y show ?thesis by (simp add: viterbi_psi_nth length_viterbi_cand)
qed

lemma viterbi_delta_Suc_nth:
  "y < n_state L \<Longrightarrow>
   viterbi_delta L (Suc t) ! y =
     R_node L ! Suc t ! y
       * (viterbi_cand L (Suc t) (viterbi_delta L t) y
            ! argmax (viterbi_cand L (Suc t) (viterbi_delta L t) y))"
  by simp

lemma path_score_upto_cong:
  "(\<forall>i\<le>t. ys ! i = zs ! i) \<Longrightarrow> path_score_upto L ys t = path_score_upto L zs t"
  by (induction t) simp_all

text \<open>No path scores more than the entry of \<open>\<delta>\<close> at its last state.\<close>

lemma viterbi_delta_upper:
  "lattice_ok L \<Longrightarrow> t < length (R_node L) \<Longrightarrow> (\<forall>i\<le>t. ys ! i < n_state L) \<Longrightarrow>
   path_score_upto L ys t \<le> viterbi_delta L t ! (ys ! t)"
proof (induction t)
  case 0
  then show ?case by simp
next
  case (Suc t)
  let ?S = "n_state L"
  let ?y = "ys ! Suc t" and ?y' = "ys ! t"
  let ?c = "viterbi_cand L (Suc t) (viterbi_delta L t) ?y"
  from Suc.prems have y: "?y < ?S" and y': "?y' < ?S" by simp_all
  from Suc.prems have t: "t < length (R_node L)" by simp
  from Suc.prems have "\<forall>i\<le>t. ys ! i < ?S" by simp
  from Suc.IH [OF Suc.prems(1) t this]
  have ih: "path_score_upto L ys t \<le> viterbi_delta L t ! ?y'" .
  have M0: "0 \<le> M_edge L ! Suc t ! (?y' * ?S + ?y)"
    using Suc.prems(1,2) edge_index [OF y' y] by (rule lattice_ok_M)
  have R0: "0 \<le> R_node L ! Suc t ! ?y"
    using Suc.prems(1,2) y by (rule lattice_ok_R)
  have "path_score_upto L ys t * M_edge L ! Suc t ! (?y' * ?S + ?y) \<le> ?c ! ?y'"
    using ih M0 y' by (simp add: viterbi_cand_nth mult_right_mono)
  also have "\<dots> \<le> ?c ! argmax ?c"
    using y' by (intro argmax_ge) (simp add: length_viterbi_cand)
  finally have "R_node L ! Suc t ! ?y
      * (path_score_upto L ys t * M_edge L ! Suc t ! (?y' * ?S + ?y))
      \<le> R_node L ! Suc t ! ?y * (?c ! argmax ?c)"
    using R0 by (rule mult_left_mono)
  then show ?case
    using y by (simp only: path_score_upto.simps viterbi_delta_Suc_nth)
qed

text \<open>The path that the back-pointers give scores exactly the entry of \<open>\<delta>\<close>.\<close>

lemma viterbi_path_attains:
  "lattice_ok L \<Longrightarrow> y < n_state L \<Longrightarrow>
   length (viterbi_path L t y) = Suc t
   \<and> viterbi_path L t y ! t = y
   \<and> (\<forall>i\<le>t. viterbi_path L t y ! i < n_state L)
   \<and> path_score_upto L (viterbi_path L t y) t = viterbi_delta L t ! y"
proof (induction t arbitrary: y)
  case 0
  then show ?case by simp
next
  case (Suc t)
  let ?S = "n_state L"
  let ?y' = "viterbi_psi L (Suc t) ! y"
  let ?q = "viterbi_path L t ?y'"
  let ?p = "viterbi_path L (Suc t) y"
  let ?c = "viterbi_cand L (Suc t) (viterbi_delta L t) y"
  from Suc.prems have S: "0 < ?S" by (simp add: lattice_ok_def)
  have y': "?y' < ?S" using S Suc.prems(2) by (rule viterbi_psi_less)
  from Suc.IH [OF Suc.prems(1) y']
  have len: "length ?q = Suc t" and last: "?q ! t = ?y'"
    and range: "\<forall>i\<le>t. ?q ! i < ?S"
    and score: "path_score_upto L ?q t = viterbi_delta L t ! ?y'"
    by blast+
  have p: "?p = ?q @ [y]" by simp
  have pre: "\<forall>i\<le>t. ?p ! i = ?q ! i"
    unfolding p using len by (simp add: nth_append)
  have end_p: "?p ! Suc t = y"
    unfolding p using len by (simp add: nth_append)
  have "path_score_upto L ?p (Suc t)
      = R_node L ! Suc t ! y * (path_score_upto L ?p t * M_edge L ! Suc t ! (?y' * ?S + y))"
    using pre end_p last by simp
  also have "path_score_upto L ?p t = viterbi_delta L t ! ?y'"
    using path_score_upto_cong [OF pre, of L] score by simp
  also have "viterbi_delta L t ! ?y' * M_edge L ! Suc t ! (?y' * ?S + y) = ?c ! ?y'"
    using y' by (simp add: viterbi_cand_nth)
  also have "?y' = argmax ?c"
    using Suc.prems(2) by (rule viterbi_psi_nth)
  finally have sc: "path_score_upto L ?p (Suc t) = viterbi_delta L (Suc t) ! y"
    using Suc.prems(2) by (simp only: viterbi_delta_Suc_nth)
  have "\<forall>i\<le>Suc t. ?p ! i < ?S"
  proof (intro allI impI)
    fix i assume "i \<le> Suc t"
    then show "?p ! i < ?S"
      using pre range end_p Suc.prems(2) by (cases "i = Suc t") auto
  qed
  with sc end_p len show ?case
    unfolding p by simp
qed


text \<open>The decoder of one topic returns a path of the lattice that scores best.\<close>

lemma viterbi_best:
  assumes ok: "lattice_ok L"
  shows "\<exists>p s. viterbi L = Inr (p, s) \<and> is_path L p \<and> path_score L p = s
           \<and> (\<forall>ys. is_path L ys \<longrightarrow> path_score L ys \<le> s)"
proof -
  let ?S = "n_state L" and ?T = "length (R_node L)"
  let ?d = "viterbi_delta L (?T - 1)"
  let ?y = "argmax ?d"
  let ?p = "viterbi_path L (?T - 1) ?y"
  from ok have S: "0 < ?S" and T: "0 < ?T" by (simp_all add: lattice_ok_def)
  have run: "viterbi L = Inr (?p, ?d ! ?y)"
    using T by (simp add: viterbi_def Let_def)
  have "?d \<noteq> []" using S length_viterbi_delta [of L "?T - 1"] by auto
  then have "?y < length ?d" by (rule argmax_less)
  then have y: "?y < ?S" by (simp add: length_viterbi_delta)
  from viterbi_path_attains [OF ok y, of "?T - 1"] T
  have len: "length ?p = ?T" and range: "\<forall>i\<le>?T - 1. ?p ! i < ?S"
    and score: "path_score_upto L ?p (?T - 1) = ?d ! ?y"
    by simp_all
  have path: "is_path L ?p"
    unfolding is_path_def list_all_length using len range T by auto
  have sc: "path_score L ?p = ?d ! ?y"
    unfolding path_score_def len by (rule score)
  have best: "path_score L ys \<le> ?d ! ?y" if ys: "is_path L ys" for ys
  proof -
    from ys have l: "length ys = ?T" and r: "\<forall>i<?T. ys ! i < ?S"
      by (simp_all add: is_path_def list_all_length)
    have r': "\<forall>i\<le>?T - 1. ys ! i < ?S"
    proof (intro allI impI)
      fix i assume "i \<le> ?T - 1"
      with T have "i < ?T" by arith
      with r show "ys ! i < ?S" by simp
    qed
    from T have "?T - 1 < ?T" by simp
    from viterbi_delta_upper [OF ok this r']
    have "path_score L ys \<le> ?d ! (ys ! (?T - 1))"
      by (simp add: path_score_def l)
    also have "\<dots> \<le> ?d ! ?y"
      using r' by (intro argmax_ge) (simp add: length_viterbi_delta)
    finally show ?thesis .
  qed
  from run path sc best show ?thesis by blast
qed

subsection \<open>All topics\<close>

lemma viterbi_all_each:
  "viterbi_all Ls = Inr rs \<Longrightarrow>
   length rs = length Ls \<and> (\<forall>k<length Ls. viterbi (Ls ! k) = Inr (rs ! k))"
proof (induction Ls arbitrary: rs)
  case Nil
  then show ?case by simp
next
  case (Cons L Ls)
  from Cons.prems obtain r rs' where r: "viterbi L = Inr r" and rs': "viterbi_all Ls = Inr rs'"
    and rs: "rs = r # rs'"
    by (auto split: sum.splits)
  from Cons.IH [OF rs'] r show ?case
    unfolding rs by (auto simp: nth_Cons split: nat.splits)
qed

lemma viterbi_all_ok:
  "\<forall>L\<in>set Ls. lattice_ok L \<Longrightarrow> \<exists>rs. viterbi_all Ls = Inr rs"
proof (induction Ls)
  case Nil
  show ?case by simp
next
  case (Cons L Ls)
  then obtain rs where "viterbi_all Ls = Inr rs" by auto
  moreover from Cons.prems viterbi_best [of L] obtain r where "viterbi L = Inr r" by auto
  ultimately show ?case by simp
qed

text \<open>
  C7. For a triangular model with at least one topic, a prior \<open>\<gamma>[z]\<close> for each topic and
  a well-formed lattice for each topic: the decoder of each topic \<open>k\<close> runs on the
  lattice of that topic alone and returns a path of that lattice whose score is the
  largest among all its label paths; \<open>viterbiSearch\<close> returns a topic \<open>z\<close> and the path of
  that topic such that \<open>\<gamma>[k] * score_k \<le> \<gamma>[z] * score_z\<close> for every topic \<open>k\<close>, and
  strictly so for every \<open>k < z\<close>: among the topics that attain the maximum the lowest id
  is returned. Of the arithmetic of potentials the proof uses only that multiplying by
  a non-negative potential preserves the order.
\<close>

theorem viterbiSearch_argmax:
  assumes "Ls \<noteq> []" and "length gamma = length Ls" and "\<forall>L\<in>set Ls. lattice_ok L"
  shows "\<exists>rs z.
           viterbi_all Ls = Inr rs \<and> length rs = length Ls
           \<and> viterbiSearch gamma Ls = Inr (z, fst (rs ! z)) \<and> z < length Ls
           \<and> (\<forall>k<length Ls.
                 viterbi (Ls ! k) = Inr (rs ! k)
                 \<and> is_path (Ls ! k) (fst (rs ! k))
                 \<and> path_score (Ls ! k) (fst (rs ! k)) = snd (rs ! k)
                 \<and> (\<forall>ys. is_path (Ls ! k) ys \<longrightarrow> path_score (Ls ! k) ys \<le> snd (rs ! k))
                 \<and> gamma ! k * snd (rs ! k) \<le> gamma ! z * snd (rs ! z)
                 \<and> (k < z \<longrightarrow> gamma ! k * snd (rs ! k) < gamma ! z * snd (rs ! z)))"
proof -
  from viterbi_all_ok [OF assms(3)] obtain rs where all: "viterbi_all Ls = Inr rs" ..
  from viterbi_all_each [OF all]
  have len: "length rs = length Ls" and each: "\<forall>k<length Ls. viterbi (Ls ! k) = Inr (rs ! k)"
    by blast+
  let ?v = "topic_values gamma rs"
  let ?z = "argmax ?v"
  have lv: "length ?v = length Ls" by (simp add: topic_values_def len)
  have v: "?v ! k = gamma ! k * snd (rs ! k)" if "k < length Ls" for k
    using that by (simp add: topic_values_def len)
  from assms(1) lv have "?v \<noteq> []" by auto
  then have "?z < length ?v" by (rule argmax_less)
  then have z: "?z < length Ls" by (simp add: lv)
  have run: "viterbiSearch gamma Ls = Inr (?z, fst (rs ! ?z))"
    by (simp add: viterbiSearch_def all Let_def)
  have topic: "viterbi (Ls ! k) = Inr (rs ! k)
      \<and> is_path (Ls ! k) (fst (rs ! k))
      \<and> path_score (Ls ! k) (fst (rs ! k)) = snd (rs ! k)
      \<and> (\<forall>ys. is_path (Ls ! k) ys \<longrightarrow> path_score (Ls ! k) ys \<le> snd (rs ! k))
      \<and> gamma ! k * snd (rs ! k) \<le> gamma ! ?z * snd (rs ! ?z)
      \<and> (k < ?z \<longrightarrow> gamma ! k * snd (rs ! k) < gamma ! ?z * snd (rs ! ?z))"
    if k: "k < length Ls" for k
  proof -
    from k assms(3) have "lattice_ok (Ls ! k)" by simp
    from viterbi_best [OF this] each k
    have best: "is_path (Ls ! k) (fst (rs ! k))"
      "path_score (Ls ! k) (fst (rs ! k)) = snd (rs ! k)"
      "\<forall>ys. is_path (Ls ! k) ys \<longrightarrow> path_score (Ls ! k) ys \<le> snd (rs ! k)"
      by auto
    have "?v ! k \<le> ?v ! ?z" using k by (intro argmax_ge) (simp add: lv)
    then have ge: "gamma ! k * snd (rs ! k) \<le> gamma ! ?z * snd (rs ! ?z)"
      using k z by (simp add: v)
    have gt: "gamma ! k * snd (rs ! k) < gamma ! ?z * snd (rs ! ?z)" if "k < ?z"
      using argmax_first [OF that] k z by (simp add: v)
    from each k best ge gt show ?thesis by blast
  qed
  from all len run z topic show ?thesis by blast
qed


theorem viterbiSearch_argmax_witness:
  "[\<lparr>n_state = 2, R_node = [[1, 2], [3, 1]], M_edge = [[1, 1, 0, 0], [1, 2, 1, 1]]\<rparr>,
    \<lparr>n_state = 2, R_node = [[2, 1], [1, 1]], M_edge = [[1, 1, 0, 0], [1, 1, 1, 3 :: int]]\<rparr>] \<noteq> []
   \<and> lattice_ok \<lparr>n_state = 2, R_node = [[1, 2], [3, 1]], M_edge = [[1, 1, 0, 0], [1, 2, 1, 1 :: int]]\<rparr>
   \<and> lattice_ok \<lparr>n_state = 2, R_node = [[2, 1], [1, 1]], M_edge = [[1, 1, 0, 0], [1, 1, 1, 3 :: int]]\<rparr>
   \<and> viterbi_all
        [\<lparr>n_state = 2, R_node = [[1, 2], [3, 1]], M_edge = [[1, 1, 0, 0], [1, 2, 1, 1]]\<rparr>,
         \<lparr>n_state = 2, R_node = [[2, 1], [1, 1]], M_edge = [[1, 1, 0, 0], [1, 1, 1, 3 :: int]]\<rparr>]
       = Inr [([1, 0], 6), ([1, 1], 3)]
   \<and> viterbiSearch [1, 2]
        [\<lparr>n_state = 2, R_node = [[1, 2], [3, 1]], M_edge = [[1, 1, 0, 0], [1, 2, 1, 1]]\<rparr>,
         \<lparr>n_state = 2, R_node = [[2, 1], [1, 1]], M_edge = [[1, 1, 0, 0], [1, 1, 1, 3 :: int]]\<rparr>]
       = Inr (0, [1, 0])
   \<and> path_score \<lparr>n_state = 2, R_node = [[1, 2], [3, 1]], M_edge = [[1, 1, 0, 0], [1, 2, 1, 1 :: int]]\<rparr>
        [0, 0] \<le> 6
   \<and> viterbiSearch [1, 3]
        [\<lparr>n_state = 2, R_node = [[1, 2], [3, 1]], M_edge = [[1, 1, 0, 0], [1, 2, 1, 1]]\<rparr>,
         \<lparr>n_state = 2, R_node = [[2, 1], [1, 1]], M_edge = [[1, 1, 0, 0], [1, 1, 1, 3 :: int]]\<rparr>]
       = Inr (1, [1, 1])
   \<and> [1, 3] ! 0 * (6 :: int) < [1, 3] ! 1 * 3"
proof -
  let ?L0 = "\<lparr>n_state = 2, R_node = [[1, 2], [3, 1]], M_edge = [[1, 1, 0, 0], [1, 2, 1, 1 :: int]]\<rparr>"
  let ?L1 = "\<lparr>n_state = 2, R_node = [[2, 1], [1, 1]], M_edge = [[1, 1, 0, 0], [1, 1, 1, 3 :: int]]\<rparr>"
  have h1: "[?L0, ?L1] \<noteq> []" by simp
  have h2: "length [1, 2 :: int] = length [?L0, ?L1]" by simp
  have h2': "length [1, 3 :: int] = length [?L0, ?L1]" by simp
  have h3: "\<forall>L\<in>set [?L0, ?L1]. lattice_ok L" by (simp add: lattice_ok_def)
  have all: "viterbi_all [?L0, ?L1] = Inr [([1, 0], 6), ([1, 1], 3)]" by code_simp
  have run: "viterbiSearch [1, 2] [?L0, ?L1] = Inr (0, [1, 0])" by code_simp
  have run': "viterbiSearch [1, 3] [?L0, ?L1] = Inr (1, [1, 1])" by code_simp
  have p: "is_path ?L0 [0, 0]" by (simp add: is_path_def)
  from viterbiSearch_argmax [OF h1 h2 h3] obtain rs z
    where rs: "viterbi_all [?L0, ?L1] = Inr rs"
      and best: "\<forall>k<length [?L0, ?L1].
        (\<forall>ys. is_path ([?L0, ?L1] ! k) ys \<longrightarrow> path_score ([?L0, ?L1] ! k) ys \<le> snd (rs ! k))"
    by blast
  from rs all have "rs = [([1, 0], 6), ([1, 1], 3)]" by simp
  with best p have tie: "path_score ?L0 [0, 0] \<le> 6" by fastforce
  from viterbiSearch_argmax [OF h1 h2' h3] obtain rs' z'
    where rs': "viterbi_all [?L0, ?L1] = Inr rs'"
      and z': "viterbiSearch [1, 3] [?L0, ?L1] = Inr (z', fst (rs' ! z'))"
      and lower: "\<forall>k<length [?L0, ?L1].
        k < z' \<longrightarrow> [1, 3] ! k * snd (rs' ! k) < [1, 3] ! z' * snd (rs' ! z')"
    by blast
  from rs' all have r: "rs' = [([1, 0], 6), ([1, 1], 3)]" by simp
  from z' run' have "z' = 1" by simp
  with lower r have strict: "[1, 3] ! 0 * (6 :: int) < [1, 3] ! 1 * 3" by fastforce
  have "lattice_ok ?L0" "lattice_ok ?L1" using h3 by simp_all
  with tie strict show ?thesis using h1 all run run' by blast
qed

end
